theory Spec2Isabelle
  imports Main
begin

section \<open>Data frames\<close>

text \<open>
  The dashboard script \<^verbatim>\<open>LebanonDiseases.py\<close> keeps its data in a pandas data frame.
  A cell of a frame is a text, an integer, a decimal number (the coordinates, which are
  only stored and never computed with: a value with four fractional digits is kept as
  that value times 10000), a timestamp (year, month, day) or a missing value
  (\<open>NaN\<close>, which also stands for Python's \<open>None\<close>, and \<open>NaT\<close> for a missing timestamp).
  Integers are mathematical integers.
\<close>

datatype cell =
    Str string
  | Num int
  | Dec int
  | Timestamp int nat nat
  | NaN
  | NaT

text \<open>
  A frame has its column labels, in order, and its rows; a row gives a cell for each
  label. The row index of pandas plays no part in the script and is left out.
\<close>

type_synonym row = "(string \<times> cell) list"

record frame =
  columns :: "string list"
  rows :: "row list"

datatype error =
    FileNotFoundError
  | ParserError
  | KeyError string
  | AttributeError
  | IndexError
  | ValueError
  | OutOfBoundsDatetime
  | Unsupported

text \<open>
  An exception ends the function that raises it: the statements after it are not run.
  \<open>and_then m f\<close> runs \<open>f\<close> on the value of \<open>m\<close>, or passes on the exception of \<open>m\<close>.
\<close>

definition and_then :: "error + 'a \<Rightarrow> ('a \<Rightarrow> error + 'b) \<Rightarrow> error + 'b" where
  "and_then m f = (case m of Inl e \<Rightarrow> Inl e | Inr x \<Rightarrow> f x)"

text \<open>The cell of a row under a label; a row without the label has nothing there.\<close>

definition cell_of :: "row \<Rightarrow> string \<Rightarrow> cell" where
  "cell_of r c = (case map_of r c of Some v \<Rightarrow> v | None \<Rightarrow> NaN)"

text \<open>\<^verbatim>\<open>df[c]\<close>: the column as a series, or \<open>KeyError\<close> when there is no such column.\<close>

definition getitem :: "frame \<Rightarrow> string \<Rightarrow> error + cell list" where
  "getitem df c =
     (if c \<in> set (columns df) then Inr (map (\<lambda>r. cell_of r c) (rows df))
      else Inl (KeyError c))"

text \<open>
  Writing a field of a row: an existing field is overwritten where it stands, a new one
  goes to the end.
\<close>

fun assign :: "string \<Rightarrow> cell \<Rightarrow> row \<Rightarrow> row" where
  "assign c v [] = [(c, v)]"
| "assign c v ((k, w) # r) = (if k = c then (c, v) # r else (k, w) # assign c v r)"

text \<open>\<^verbatim>\<open>df[c] = series\<close>, for a series computed from the frame's own rows.\<close>

definition setitem :: "frame \<Rightarrow> string \<Rightarrow> cell list \<Rightarrow> frame" where
  "setitem df c vs =
     \<lparr>columns = (if c \<in> set (columns df) then columns df else columns df @ [c]),
      rows = map (\<lambda>(r, v). assign c v r) (zip (rows df) vs)\<rparr>"

text \<open>
  \<^verbatim>\<open>series.apply(f)\<close> calls \<open>f\<close> on the cells from first to last; the first exception
  ends the call.
\<close>

fun series_apply :: "(cell \<Rightarrow> error + cell) \<Rightarrow> cell list \<Rightarrow> error + cell list" where
  "series_apply f [] = Inr []"
| "series_apply f (v # vs) =
     (case f v of
        Inl e \<Rightarrow> Inl e
      | Inr w \<Rightarrow> (case series_apply f vs of Inl e \<Rightarrow> Inl e | Inr ws \<Rightarrow> Inr (w # ws)))"

section \<open>Strings\<close>

text \<open>\<^verbatim>\<open>s.split(sep)\<close> for a separator of one character: never an empty list.\<close>

fun split :: "char \<Rightarrow> string \<Rightarrow> string list" where
  "split sep [] = [[]]"
| "split sep (c # cs) =
     (if c = sep then [] # split sep cs
      else (case split sep cs of [] \<Rightarrow> [[c]] | s # ss \<Rightarrow> (c # s) # ss))"

text \<open>\<^verbatim>\<open>xs[-1]\<close>, with the \<open>IndexError\<close> of an empty list.\<close>

definition index_last :: "'a list \<Rightarrow> error + 'a" where
  "index_last xs = (case xs of [] \<Rightarrow> Inl IndexError | _ # _ \<Rightarrow> Inr (last xs))"

text \<open>\<^verbatim>\<open>s.replace(a, b)\<close> for single characters \<open>a\<close> and \<open>b\<close>.\<close>

definition replace_char :: "char \<Rightarrow> char \<Rightarrow> string \<Rightarrow> string" where
  "replace_char a b s = map (\<lambda>c. if c = a then b else c) s"

section \<open>Constants of the script\<close>

definition CSV_FILE_PATH :: string where
  "CSV_FILE_PATH = ''MumpsLeb.csv''"

definition REGION_COORDS :: "(string \<times> cell \<times> cell) list" where
  "REGION_COORDS =
     [(''Beqaa Valley'', Dec 338467, Dec 359020),
      (''South Governorate'', Dec 332721, Dec 352033),
      (''Beirut'', Dec 338938, Dec 355018),
      (''Mount Lebanon'', Dec 338333, Dec 355833),
      (''Tripoli'', Dec 344367, Dec 358308),
      (''Nabatieh'', Dec 333772, Dec 354839),
      (''Baalbek-Hermel'', Dec 341796, Dec 361508),
      (''Akkar'', Dec 345431, Dec 360771)]"

text \<open>The dictionary given to \<^verbatim>\<open>replace\<close> in \<^verbatim>\<open>load_and_process_data\<close>.\<close>

definition REGION_ALIASES :: "(string \<times> string) list" where
  "REGION_ALIASES =
     [(''North Governorate'', ''Tripoli''),
      (''North Lebanon'', ''Tripoli'')]"

section \<open>Loading\<close>

text \<open>
  What \<^verbatim>\<open>pd.read_csv\<close> finds at a path: nothing, a file it cannot read as a table, or
  a table. The parsing of the file's text into cells is pandas' and is not modelled:
  a readable file is given by the frame that \<^verbatim>\<open>read_csv\<close> returns for it.
\<close>

datatype csv_file = Unreadable | Csv frame

definition read_csv :: "(string \<rightharpoonup> csv_file) \<Rightarrow> string \<Rightarrow> error + frame" where
  "read_csv fs path =
     (case fs path of
        None \<Rightarrow> Inl FileNotFoundError
      | Some Unreadable \<Rightarrow> Inl ParserError
      | Some (Csv df) \<Rightarrow> Inr df)"

text \<open>
  The function applied to \<^verbatim>\<open>refArea\<close>:
  \<^verbatim>\<open>lambda x: x.split('/')[-1].replace('_', ' ')\<close>.
  Only a text has \<^verbatim>\<open>split\<close>; on a number or a missing value the call raises
  \<open>AttributeError\<close>.
\<close>

definition area_name :: "cell \<Rightarrow> error + cell" where
  "area_name x =
     (case x of
        Str s \<Rightarrow>
          (case index_last (split (CHR ''/'') s) of
             Inl e \<Rightarrow> Inl e
           | Inr seg \<Rightarrow> Inr (Str (replace_char (CHR ''_'') (CHR '' '') seg)))
      | _ \<Rightarrow> Inl AttributeError)"

text \<open>
  \<^verbatim>\<open>series.replace(dict)\<close>: a cell that is equal to a key of the dictionary becomes the
  key's value; every other cell stays.
\<close>

definition replace_values :: "(string \<times> string) list \<Rightarrow> cell list \<Rightarrow> cell list" where
  "replace_values d vs =
     map (\<lambda>v. case v of
                 Str s \<Rightarrow> (case map_of d s of Some t \<Rightarrow> Str t | None \<Rightarrow> Str s)
               | _ \<Rightarrow> v) vs"

text \<open>The function applied to \<^verbatim>\<open>refPeriod\<close>: \<^verbatim>\<open>lambda x: x.split('/')[-1]\<close>.\<close>

definition period_name :: "cell \<Rightarrow> error + cell" where
  "period_name x =
     (case x of
        Str s \<Rightarrow>
          (case index_last (split (CHR ''/'') s) of
             Inl e \<Rightarrow> Inl e
           | Inr seg \<Rightarrow> Inr (Str seg))
      | _ \<Rightarrow> Inl AttributeError)"

subsection \<open>Parsing a period\<close>

definition is_digit :: "char \<Rightarrow> bool" where
  "is_digit c = (c \<in> set ''0123456789'')"

definition digit_val :: "char \<Rightarrow> nat" where
  "digit_val c = of_char c - 48"

text \<open>
  The directive \<^verbatim>\<open>%m\<close> reads a month as the pattern \<^verbatim>\<open>1[0-2]|0[1-9]|[1-9]\<close>. The
  alternatives are tried in this order; when an earlier one matches, no later one can
  match with a hyphen after it, so the first match decides.
\<close>

fun match_month :: "string \<Rightarrow> (nat \<times> string) option" where
  "match_month (c # d # cs) =
     (if c = CHR ''1'' \<and> d \<in> set ''012'' then Some (10 + digit_val d, cs)
      else if c = CHR ''0'' \<and> d \<in> set ''123456789'' then Some (digit_val d, cs)
      else if c \<in> set ''123456789'' then Some (digit_val c, d # cs)
      else None)"
| "match_month [c] = (if c \<in> set ''123456789'' then Some (digit_val c, []) else None)"
| "match_month [] = None"

text \<open>
  The format \<^verbatim>\<open>'%m-%Y'\<close>: a month, a hyphen, a year of exactly four digits, and
  nothing after it. The result is the year and the month.
\<close>

definition strptime_m_Y :: "string \<Rightarrow> (int \<times> nat) option" where
  "strptime_m_Y s =
     (case match_month s of
        None \<Rightarrow> None
      | Some (m, rest) \<Rightarrow>
          (case rest of
             [h, y1, y2, y3, y4] \<Rightarrow>
               (if h = CHR ''-'' \<and> is_digit y1 \<and> is_digit y2 \<and> is_digit y3 \<and> is_digit y4
                then Some (int (1000 * digit_val y1 + 100 * digit_val y2
                                + 10 * digit_val y3 + digit_val y4), m)
                else None)
           | _ \<Rightarrow> None))"

text \<open>The texts that pandas reads as a missing timestamp.\<close>

definition nat_strings :: "string list" where
  "nat_strings = [''NaT'', ''nat'', ''NAT'', ''nan'', ''NaN'', ''NAN'']"

text \<open>
  \<^verbatim>\<open>pd.to_datetime(series, format='%m-%Y')\<close> on one cell. An empty text and the texts
  of \<open>nat_strings\<close> give \<open>NaT\<close> without an error; any other text has to match the
  format, or the call raises \<open>ValueError\<close>; a date that the timestamp type cannot hold
  raises \<open>OutOfBoundsDatetime\<close>. Which years and months the timestamp type holds
  depends on the version of pandas (its resolution), so it is the parameter \<open>holds\<close>.
  The day of the result is the first of the month.
\<close>

definition to_datetime_cell :: "(int \<Rightarrow> nat \<Rightarrow> bool) \<Rightarrow> cell \<Rightarrow> error + cell" where
  "to_datetime_cell holds x =
     (case x of
        Str s \<Rightarrow>
          (if s = [] \<or> s \<in> set nat_strings then Inr NaT
           else (case strptime_m_Y s of
                   None \<Rightarrow> Inl ValueError
                 | Some (y, m) \<Rightarrow>
                     (if holds y m then Inr (Timestamp y m 1) else Inl OutOfBoundsDatetime)))
      | NaN \<Rightarrow> Inr NaT
      | NaT \<Rightarrow> Inr NaT
      | Timestamp y m d \<Rightarrow> Inr (Timestamp y m d)
      | _ \<Rightarrow> Inl ValueError)"

definition to_datetime :: "(int \<Rightarrow> nat \<Rightarrow> bool) \<Rightarrow> cell list \<Rightarrow> error + cell list" where
  "to_datetime holds vs = series_apply (to_datetime_cell holds) vs"

text \<open>The range of a timestamp of nanosecond resolution, for the first day of a month.\<close>

definition ns_holds :: "int \<Rightarrow> nat \<Rightarrow> bool" where
  "ns_holds y m = ((1677 < y \<or> (y = 1677 \<and> 10 \<le> m)) \<and> (y < 2262 \<or> (y = 2262 \<and> m \<le> 4)))"

text \<open>\<^verbatim>\<open>series.dt.year\<close>: the year of a timestamp, missing for a missing timestamp.\<close>

definition dt_year :: "cell list \<Rightarrow> cell list" where
  "dt_year vs = map (\<lambda>v. case v of Timestamp y m d \<Rightarrow> Num y | _ \<Rightarrow> NaN) vs"

text \<open>
  \<^verbatim>\<open>df.rename(columns=d, inplace=True)\<close>: every label that is a key of \<open>d\<close> is replaced;
  a key that is no label of the frame is passed over in silence.
\<close>

definition rename_label :: "(string \<times> string) list \<Rightarrow> string \<Rightarrow> string" where
  "rename_label d c = (case map_of d c of Some c' \<Rightarrow> c' | None \<Rightarrow> c)"

definition rename :: "(string \<times> string) list \<Rightarrow> frame \<Rightarrow> frame" where
  "rename d df =
     \<lparr>columns = map (rename_label d) (columns df),
      rows = map (map (\<lambda>(c, v). (rename_label d c, v))) (rows df)\<rparr>"

text \<open>
  \<^verbatim>\<open>load_and_process_data(path)\<close>, statement by statement. The cache decorator returns
  what the function returns and is left out.
\<close>

definition load_and_process_data ::
  "(int \<Rightarrow> nat \<Rightarrow> bool) \<Rightarrow> (string \<rightharpoonup> csv_file) \<Rightarrow> string \<Rightarrow> error + frame" where
  "load_and_process_data holds fs path =
     and_then (read_csv fs path) (\<lambda>df.
     and_then (getitem df ''refArea'') (\<lambda>areas.
     and_then (series_apply area_name areas) (\<lambda>names.
     let df1 = setitem df ''Region'' names in
     and_then (getitem df1 ''Region'') (\<lambda>regions.
     let df2 = setitem df1 ''Region'' (replace_values REGION_ALIASES regions) in
     and_then (getitem df2 ''refPeriod'') (\<lambda>periods.
     and_then (series_apply period_name periods) (\<lambda>segs.
     and_then (to_datetime holds segs) (\<lambda>stamps.
     let df3 = setitem df2 ''Month-Year'' stamps in
     and_then (getitem df3 ''Month-Year'') (\<lambda>month_year.
     let df4 = setitem df3 ''Year'' (dt_year month_year) in
     Inr (rename [(''Number of cases'', ''Cases'')] df4)))))))))"

section \<open>Coordinates\<close>

definition isna :: "cell \<Rightarrow> bool" where
  "isna v = (v = NaN \<or> v = NaT)"

text \<open>
  \<^verbatim>\<open>REGION_COORDS.get(r, (None, None))\<close>: the pair of a region of the table, a pair of
  missing values for anything else.
\<close>

definition REGION_COORDS_get :: "cell \<Rightarrow> cell \<times> cell" where
  "REGION_COORDS_get r =
     (case r of
        Str s \<Rightarrow> (case map_of REGION_COORDS s of Some p \<Rightarrow> p | None \<Rightarrow> (NaN, NaN))
      | _ \<Rightarrow> (NaN, NaN))"

text \<open>
  \<^verbatim>\<open>df.dropna(subset=labels)\<close>: a new frame with the rows that have no missing value
  under the labels; \<open>KeyError\<close> for a label that is no column.
\<close>

definition dropna :: "string list \<Rightarrow> frame \<Rightarrow> error + frame" where
  "dropna labels df =
     (case filter (\<lambda>c. c \<notin> set (columns df)) labels of
        c # _ \<Rightarrow> Inl (KeyError c)
      | [] \<Rightarrow> Inr (df\<lparr>rows := filter (\<lambda>r. \<forall>c \<in> set labels. \<not> isna (cell_of r c)) (rows df)\<rparr>))"

text \<open>
  \<^verbatim>\<open>add_coordinates(df)\<close>. The two assignments write into the frame that the caller
  passed, so the result has two parts: the caller's frame as the call leaves it, and
  the frame that the call returns.
\<close>

definition add_coordinates :: "frame \<Rightarrow> error + frame \<times> frame" where
  "add_coordinates df =
     and_then (getitem df ''Region'') (\<lambda>region.
     let df1 = setitem df ''lat'' (map (\<lambda>r. fst (REGION_COORDS_get r)) region) in
     and_then (getitem df1 ''Region'') (\<lambda>region'.
     let df2 = setitem df1 ''lon'' (map (\<lambda>r. snd (REGION_COORDS_get r)) region') in
     and_then (dropna [''lat'', ''lon''] df2) (\<lambda>res.
     Inr (df2, res))))"

section \<open>Aggregates\<close>

text \<open>\<^verbatim>\<open>df[mask]\<close>: the rows at which the mask \<open>bs\<close> is true.\<close>

definition select_rows :: "frame \<Rightarrow> bool list \<Rightarrow> frame" where
  "select_rows df bs = df\<lparr>rows := map fst (filter snd (zip (rows df) bs))\<rparr>"

text \<open>
  The order in which a grouping lists its keys: texts by their characters' codes,
  integers by size, keys of several labels from the first label on.
\<close>

fun str_le :: "string \<Rightarrow> string \<Rightarrow> bool" where
  "str_le [] t = True"
| "str_le (c # s) [] = False"
| "str_le (c # s) (d # t) = ((of_char c :: nat) < of_char d \<or> (c = d \<and> str_le s t))"

fun cell_le :: "cell \<Rightarrow> cell \<Rightarrow> bool" where
  "cell_le (Num a) (Num b) = (a \<le> b)"
| "cell_le (Str s) (Str t) = str_le s t"
| "cell_le _ _ = False"

fun key_le :: "cell list \<Rightarrow> cell list \<Rightarrow> bool" where
  "key_le [] bs = True"
| "key_le (a # as) [] = False"
| "key_le (a # as) (b # bs) = (if a = b then key_le as bs else cell_le a b)"

fun insert_key :: "cell list \<Rightarrow> cell list list \<Rightarrow> cell list list" where
  "insert_key k [] = [k]"
| "insert_key k (j # js) = (if key_le k j then k # j # js else j # insert_key k js)"

definition sort_keys :: "cell list list \<Rightarrow> cell list list" where
  "sort_keys ks = foldr insert_key ks []"

definition is_num :: "cell \<Rightarrow> bool" where
  "is_num v = (case v of Num _ \<Rightarrow> True | _ \<Rightarrow> False)"

definition is_str :: "cell \<Rightarrow> bool" where
  "is_str v = (case v of Str _ \<Rightarrow> True | _ \<Rightarrow> False)"

definition num_of :: "cell \<Rightarrow> int" where
  "num_of v = (case v of Num n \<Rightarrow> n | _ \<Rightarrow> 0)"

text \<open>
  \<^verbatim>\<open>df.groupby(by)[val].sum()\<close> as a frame with the columns \<open>keys\<close> and \<open>val\<close>, which is
  what \<^verbatim>\<open>as_index=False\<close> and \<^verbatim>\<open>reset_index()\<close> both give: one row for each key that
  occurs, the keys in ascending order, with the sum of \<open>val\<close> over the rows of the key.
  Rows with a missing key are left out of the grouping. The script sums integer counts
  grouped by texts and integers; sums of other cells (texts, missing counts, which
  make the column floating-point) and keys of mixed kinds are outside the model and
  answered with \<open>Unsupported\<close>.
\<close>

definition groupby_sum :: "string list \<Rightarrow> string \<Rightarrow> frame \<Rightarrow> error + frame" where
  "groupby_sum keys val df =
     (case filter (\<lambda>k. k \<notin> set (columns df)) keys of
        k # _ \<Rightarrow> Inl (KeyError k)
      | [] \<Rightarrow>
          if val \<notin> set (columns df) then Inl (KeyError val)
          else
            let rs = filter (\<lambda>r. \<forall>k \<in> set keys. \<not> isna (cell_of r k)) (rows df) in
            if (\<forall>r \<in> set rs. is_num (cell_of r val)) \<and>
               (\<forall>k \<in> set keys. (\<forall>r \<in> set rs. is_str (cell_of r k)) \<or>
                               (\<forall>r \<in> set rs. is_num (cell_of r k)))
            then Inr \<lparr>columns = keys @ [val],
                      rows = map (\<lambda>key. zip keys key @
                                    [(val, Num (sum_list (map (\<lambda>r. num_of (cell_of r val))
                                       (filter (\<lambda>r. map (cell_of r) keys = key) rs))))])
                               (sort_keys (remdups (map (\<lambda>r. map (cell_of r) keys) rs)))\<rparr>
            else Inl Unsupported)"


text \<open>
  Lines 119 and 120 of \<^verbatim>\<open>main\<close>: the frame \<^verbatim>\<open>line_df\<close> of the trend chart, for the
  regions selected in the multiselect.
\<close>

definition line_df :: "frame \<Rightarrow> string list \<Rightarrow> error + frame" where
  "line_df df selected_line_regions =
     and_then (getitem df ''Region'') (\<lambda>region.
     groupby_sum [''Year'', ''Region''] ''Cases''
       (select_rows df (map (\<lambda>v. v \<in> set (map Str selected_line_regions)) region)))"

text \<open>\<^verbatim>\<open>df.columns = labels\<close>: the columns are relabelled by position.\<close>

definition set_columns :: "string list \<Rightarrow> frame \<Rightarrow> error + frame" where
  "set_columns labels df =
     (if length labels = length (columns df)
      then Inr \<lparr>columns = labels, rows = map (\<lambda>r. zip labels (map snd r)) (rows df)\<rparr>
      else Inl ValueError)"

text \<open>
  \<^verbatim>\<open>df.sort_values(by=c, ascending=False)\<close> on a column of integers. pandas does not
  fix the order of rows with equal values; the model keeps them in the order they had.
\<close>

fun insert_desc :: "string \<Rightarrow> row \<Rightarrow> row list \<Rightarrow> row list" where
  "insert_desc c r [] = [r]"
| "insert_desc c r (q # qs) =
     (if num_of (cell_of r c) < num_of (cell_of q c) then q # insert_desc c r qs
      else r # q # qs)"

definition sort_values_desc :: "string \<Rightarrow> frame \<Rightarrow> error + frame" where
  "sort_values_desc c df =
     (if c \<in> set (columns df) then Inr (df\<lparr>rows := foldr (insert_desc c) (rows df) []\<rparr>)
      else Inl (KeyError c))"

text \<open>Lines 159 to 161 of \<^verbatim>\<open>main\<close>: the frame \<^verbatim>\<open>region_totals_df\<close> of the bar chart.\<close>

definition region_totals_df :: "frame \<Rightarrow> error + frame" where
  "region_totals_df df =
     and_then (groupby_sum [''Region''] ''Cases'' df) (\<lambda>totals.
     and_then (set_columns [''Region'', ''Total Cases''] totals) (\<lambda>totals'.
     sort_values_desc ''Total Cases'' totals'))"

section \<open>The specification's words\<close>

text \<open>
  The final path segment of an identifier, the region name and a period of the form
  \<^verbatim>\<open>MM-YYYY\<close>, as the specification describes them; the properties below compare
  them with what the script computes.
\<close>

definition spec_last_segment :: "string \<Rightarrow> string" where
  "spec_last_segment s = rev (takeWhile (\<lambda>c. c \<noteq> CHR ''/'') (rev s))"

definition spec_region :: "string \<Rightarrow> string" where
  "spec_region a =
     (let s = map (\<lambda>c. if c = CHR ''_'' then CHR '' '' else c) (spec_last_segment a)
      in if s = ''North Governorate'' \<or> s = ''North Lebanon'' then ''Tripoli'' else s)"

fun spec_valid_MM_YYYY :: "string \<Rightarrow> bool" where
  "spec_valid_MM_YYYY [m1, m2, h, y1, y2, y3, y4] =
     (is_digit m1 \<and> is_digit m2 \<and> h = CHR ''-'' \<and>
      is_digit y1 \<and> is_digit y2 \<and> is_digit y3 \<and> is_digit y4 \<and>
      1 \<le> 10 * digit_val m1 + digit_val m2 \<and> 10 * digit_val m1 + digit_val m2 \<le> 12)"
| "spec_valid_MM_YYYY _ = False"



text \<open>The area name of an identifier: its last segment with spaces for underscores.\<close>

definition spec_area_name :: "string \<Rightarrow> string" where
  "spec_area_name a = map (\<lambda>c. if c = CHR ''_'' then CHR '' '' else c) (spec_last_segment a)"

text \<open>
  A period segment fails to parse when \<^verbatim>\<open>to_datetime\<close> raises an exception on it.
\<close>

definition period_fails :: "(int \<Rightarrow> nat \<Rightarrow> bool) \<Rightarrow> string \<Rightarrow> bool" where
  "period_fails holds seg =
     (case to_datetime_cell holds (Str seg) of Inl e \<Rightarrow> True | Inr t \<Rightarrow> False)"

text \<open>
  A record that the coordinate table can place, and the record with the latitude and
  longitude of its region attached.
\<close>

definition spec_in_table :: "row \<Rightarrow> bool" where
  "spec_in_table r =
     (case cell_of r ''Region'' of
        Str s \<Rightarrow> s \<in> set (map fst REGION_COORDS)
      | _ \<Rightarrow> False)"

definition spec_with_coordinates :: "row \<Rightarrow> row" where
  "spec_with_coordinates r =
     (case cell_of r ''Region'' of
        Str s \<Rightarrow>
          (case map_of REGION_COORDS s of
             Some (lat, lon) \<Rightarrow> assign ''lon'' lon (assign ''lat'' lat r)
           | None \<Rightarrow> r)
      | _ \<Rightarrow> r)"

text \<open>
  A record set as the data model has it: a frame with the columns \<open>Region\<close>, \<open>Year\<close>
  and \<open>Cases\<close>, whose regions are texts and whose years and case counts are integers.
\<close>

definition case_records :: "frame \<Rightarrow> bool" where
  "case_records df =
     (''Region'' \<in> set (columns df) \<and> ''Year'' \<in> set (columns df) \<and>
      ''Cases'' \<in> set (columns df) \<and>
      (\<forall>r \<in> set (rows df). is_str (cell_of r ''Region'') \<and> is_num (cell_of r ''Year'') \<and>
         is_num (cell_of r ''Cases'')))"

text \<open>
  The texts that the format \<^verbatim>\<open>%m-%Y\<close> accepts, said without the parser: a month written
  as one of \<open>spec_month_texts\<close> (a digit from 1 to 9, alone or after a 0, or 10, 11 or
  12), a hyphen, and four digits of a year. The texts of
  \<open>spec_missing_texts\<close> stand for a missing date. A period segment is rejected when it is
  not one of the missing texts and either has not the accepted form or names a month
  that the timestamp type cannot hold.
\<close>

definition spec_month_texts :: "string list" where
  "spec_month_texts =
     map (\<lambda>d. [d]) ''123456789'' @
     map (\<lambda>d. [CHR ''0'', d]) ''123456789'' @
     [''10'', ''11'', ''12'']"

definition spec_missing_texts :: "string list" where
  "spec_missing_texts = ['''', ''NaT'', ''nat'', ''NAT'', ''nan'', ''NaN'', ''NAN'']"

definition spec_decimal :: "string \<Rightarrow> nat" where
  "spec_decimal s = foldl (\<lambda>n c. 10 * n + digit_val c) 0 s"

definition spec_period_form :: "string \<Rightarrow> bool" where
  "spec_period_form s =
     (5 \<le> length s \<and>
      take (length s - 5) s \<in> set spec_month_texts \<and>
      s ! (length s - 5) = CHR ''-'' \<and>
      list_all is_digit (drop (length s - 4) s))"

definition spec_period_month :: "string \<Rightarrow> nat" where
  "spec_period_month s = spec_decimal (take (length s - 5) s)"

definition spec_period_year :: "string \<Rightarrow> int" where
  "spec_period_year s = int (spec_decimal (drop (length s - 4) s))"

definition spec_period_rejected :: "(int \<Rightarrow> nat \<Rightarrow> bool) \<Rightarrow> string \<Rightarrow> bool" where
  "spec_period_rejected holds s =
     (s \<notin> set spec_missing_texts \<and>
      (\<not> spec_period_form s \<or> \<not> holds (spec_period_year s) (spec_period_month s)))"

section \<open>Example data\<close>

text \<open>The two rows of the specification's example, and the frame loaded from them.\<close>

definition example_csv :: frame where
  "example_csv =
     \<lparr>columns = [''refArea'', ''refPeriod'', ''Number of cases''],
      rows =
        [[(''refArea'', Str ''http://example.org/area/Beqaa_Valley''),
          (''refPeriod'', Str ''http://example.org/period/01-2019''),
          (''Number of cases'', Num 5)],
         [(''refArea'', Str ''http://example.org/area/North_Lebanon''),
          (''refPeriod'', Str ''http://example.org/period/01-2019''),
          (''Number of cases'', Num 3)]]\<rparr>"

definition example_fs :: "string \<rightharpoonup> csv_file" where
  "example_fs = [CSV_FILE_PATH \<mapsto> Csv example_csv]"

definition example_loaded :: frame where
  "example_loaded =
     \<lparr>columns = [''refArea'', ''refPeriod'', ''Cases'', ''Region'', ''Month-Year'', ''Year''],
      rows =
        [[(''refArea'', Str ''http://example.org/area/Beqaa_Valley''),
          (''refPeriod'', Str ''http://example.org/period/01-2019''),
          (''Cases'', Num 5), (''Region'', Str ''Beqaa Valley''),
          (''Month-Year'', Timestamp 2019 1 1), (''Year'', Num 2019)],
         [(''refArea'', Str ''http://example.org/area/North_Lebanon''),
          (''refPeriod'', Str ''http://example.org/period/01-2019''),
          (''Cases'', Num 3), (''Region'', Str ''Tripoli''),
          (''Month-Year'', Timestamp 2019 1 1), (''Year'', Num 2019)]]\<rparr>"


text \<open>
  A file without the column \<open>refArea\<close>, and a file whose second row has the period
  segment \<open>13-2019\<close>.
\<close>

definition no_area_csv :: frame where
  "no_area_csv =
     \<lparr>columns = [''refPeriod'', ''Number of cases''],
      rows = [[(''refPeriod'', Str ''http://example.org/period/01-2019''),
               (''Number of cases'', Num 5)]]\<rparr>"

definition no_area_fs :: "string \<rightharpoonup> csv_file" where
  "no_area_fs = [CSV_FILE_PATH \<mapsto> Csv no_area_csv]"

definition bad_period_csv :: frame where
  "bad_period_csv =
     \<lparr>columns = [''refArea'', ''refPeriod'', ''Number of cases''],
      rows = [[(''refArea'', Str ''http://example.org/area/Beirut''),
               (''refPeriod'', Str ''http://example.org/period/01-2019''),
               (''Number of cases'', Num 5)],
              [(''refArea'', Str ''http://example.org/area/Akkar''),
               (''refPeriod'', Str ''http://example.org/period/13-2019''),
               (''Number of cases'', Num 2)]]\<rparr>"

definition bad_period_fs :: "string \<rightharpoonup> csv_file" where
  "bad_period_fs = [CSV_FILE_PATH \<mapsto> Csv bad_period_csv]"

text \<open>A file with an area that the coordinate table does not have, and its loaded frame.\<close>

definition unmapped_csv :: frame where
  "unmapped_csv =
     \<lparr>columns = [''refArea'', ''refPeriod'', ''Number of cases''],
      rows = [[(''refArea'', Str ''http://example.org/area/Chouf''),
               (''refPeriod'', Str ''http://example.org/period/12-2020''),
               (''Number of cases'', Num 7)]]\<rparr>"

definition unmapped_fs :: "string \<rightharpoonup> csv_file" where
  "unmapped_fs = [CSV_FILE_PATH \<mapsto> Csv unmapped_csv]"

definition unmapped_loaded :: frame where
  "unmapped_loaded =
     \<lparr>columns = [''refArea'', ''refPeriod'', ''Cases'', ''Region'', ''Month-Year'', ''Year''],
      rows = [[(''refArea'', Str ''http://example.org/area/Chouf''),
               (''refPeriod'', Str ''http://example.org/period/12-2020''),
               (''Cases'', Num 7), (''Region'', Str ''Chouf''),
               (''Month-Year'', Timestamp 2020 12 1), (''Year'', Num 2020)]]\<rparr>"

text \<open>
  A file with no column of case counts at all, and a file whose column of case counts
  is already called \<open>Cases\<close>.
\<close>

definition no_count_csv :: frame where
  "no_count_csv =
     \<lparr>columns = [''refArea'', ''refPeriod''],
      rows = [[(''refArea'', Str ''http://example.org/area/Beirut''),
               (''refPeriod'', Str ''http://example.org/period/03-2018'')]]\<rparr>"

definition no_count_fs :: "string \<rightharpoonup> csv_file" where
  "no_count_fs = [CSV_FILE_PATH \<mapsto> Csv no_count_csv]"

definition cases_csv :: frame where
  "cases_csv =
     \<lparr>columns = [''refArea'', ''refPeriod'', ''Cases''],
      rows = [[(''refArea'', Str ''http://example.org/area/Beirut''),
               (''refPeriod'', Str ''http://example.org/period/03-2018''),
               (''Cases'', Num 4)]]\<rparr>"

definition cases_fs :: "string \<rightharpoonup> csv_file" where
  "cases_fs = [CSV_FILE_PATH \<mapsto> Csv cases_csv]"

definition cases_loaded :: frame where
  "cases_loaded =
     \<lparr>columns = [''refArea'', ''refPeriod'', ''Cases'', ''Region'', ''Month-Year'', ''Year''],
      rows = [[(''refArea'', Str ''http://example.org/area/Beirut''),
               (''refPeriod'', Str ''http://example.org/period/03-2018''),
               (''Cases'', Num 4), (''Region'', Str ''Beirut''),
               (''Month-Year'', Timestamp 2018 3 1), (''Year'', Num 2018)]]\<rparr>"

text \<open>
  Totals of two regions, one of them outside the coordinate table; the same frame after
  \<^verbatim>\<open>add_coordinates\<close> has written into it; and the frame that \<^verbatim>\<open>add_coordinates\<close>
  returns for it.
\<close>

definition mixed_totals :: frame where
  "mixed_totals =
     \<lparr>columns = [''Region'', ''Cases''],
      rows = [[(''Region'', Str ''Beqaa Valley''), (''Cases'', Num 11)],
              [(''Region'', Str ''Chouf''), (''Cases'', Num 7)]]\<rparr>"

definition mixed_totals_after :: frame where
  "mixed_totals_after =
     \<lparr>columns = [''Region'', ''Cases'', ''lat'', ''lon''],
      rows = [[(''Region'', Str ''Beqaa Valley''), (''Cases'', Num 11),
               (''lat'', Dec 338467), (''lon'', Dec 359020)],
              [(''Region'', Str ''Chouf''), (''Cases'', Num 7),
               (''lat'', NaN), (''lon'', NaN)]]\<rparr>"

definition mixed_totals_located :: frame where
  "mixed_totals_located =
     \<lparr>columns = [''Region'', ''Cases'', ''lat'', ''lon''],
      rows = [[(''Region'', Str ''Beqaa Valley''), (''Cases'', Num 11),
               (''lat'', Dec 338467), (''lon'', Dec 359020)]]\<rparr>"

text \<open>
  Four records of three regions and two years, and two records of one region in two
  years.
\<close>

definition example_records :: frame where
  "example_records =
     \<lparr>columns = [''Region'', ''Year'', ''Cases''],
      rows = [[(''Region'', Str ''Beqaa Valley''), (''Year'', Num 2019), (''Cases'', Num 5)],
              [(''Region'', Str ''Tripoli''), (''Year'', Num 2019), (''Cases'', Num 3)],
              [(''Region'', Str ''Chouf''), (''Year'', Num 2020), (''Cases'', Num 7)],
              [(''Region'', Str ''Beqaa Valley''), (''Year'', Num 2020), (''Cases'', Num 11)]]\<rparr>"

definition two_years :: frame where
  "two_years =
     \<lparr>columns = [''Region'', ''Year'', ''Cases''],
      rows = [[(''Region'', Str ''Akkar''), (''Year'', Num 2019), (''Cases'', Num 4)],
              [(''Region'', Str ''Akkar''), (''Year'', Num 2020), (''Cases'', Num 9)]]\<rparr>"

text \<open>
  A file whose period segments are empty, \<open>nan\<close> and \<open>1-2019\<close>, with the frame loaded from
  it; and a file with the period segment \<open>01-1500\<close>.
\<close>

definition lenient_csv :: frame where
  "lenient_csv =
     \<lparr>columns = [''refArea'', ''refPeriod'', ''Number of cases''],
      rows = [[(''refArea'', Str ''http://example.org/area/Beirut''),
               (''refPeriod'', Str ''http://example.org/period/''),
               (''Number of cases'', Num 5)],
              [(''refArea'', Str ''http://example.org/area/Akkar''),
               (''refPeriod'', Str ''http://example.org/period/nan''),
               (''Number of cases'', Num 2)],
              [(''refArea'', Str ''http://example.org/area/Nabatieh''),
               (''refPeriod'', Str ''http://example.org/period/1-2019''),
               (''Number of cases'', Num 6)]]\<rparr>"

definition lenient_fs :: "string \<rightharpoonup> csv_file" where
  "lenient_fs = [CSV_FILE_PATH \<mapsto> Csv lenient_csv]"

definition lenient_loaded :: frame where
  "lenient_loaded =
     \<lparr>columns = [''refArea'', ''refPeriod'', ''Cases'', ''Region'', ''Month-Year'', ''Year''],
      rows = [[(''refArea'', Str ''http://example.org/area/Beirut''),
               (''refPeriod'', Str ''http://example.org/period/''),
               (''Cases'', Num 5), (''Region'', Str ''Beirut''),
               (''Month-Year'', NaT), (''Year'', NaN)],
              [(''refArea'', Str ''http://example.org/area/Akkar''),
               (''refPeriod'', Str ''http://example.org/period/nan''),
               (''Cases'', Num 2), (''Region'', Str ''Akkar''),
               (''Month-Year'', NaT), (''Year'', NaN)],
              [(''refArea'', Str ''http://example.org/area/Nabatieh''),
               (''refPeriod'', Str ''http://example.org/period/1-2019''),
               (''Cases'', Num 6), (''Region'', Str ''Nabatieh''),
               (''Month-Year'', Timestamp 2019 1 1), (''Year'', Num 2019)]]\<rparr>"

definition early_csv :: frame where
  "early_csv =
     \<lparr>columns = [''refArea'', ''refPeriod'', ''Number of cases''],
      rows = [[(''refArea'', Str ''http://example.org/area/Beirut''),
               (''refPeriod'', Str ''http://example.org/period/01-1500''),
               (''Number of cases'', Num 5)]]\<rparr>"

definition early_fs :: "string \<rightharpoonup> csv_file" where
  "early_fs = [CSV_FILE_PATH \<mapsto> Csv early_csv]"

section \<open>Auxiliary definitions\<close>

text \<open>The frame that \<^verbatim>\<open>load_and_process_data\<close> builds from the derived series.\<close>

definition loaded :: "frame \<Rightarrow> cell list \<Rightarrow> cell list \<Rightarrow> frame" where
  "loaded df names stamps =
     rename [(''Number of cases'', ''Cases'')]
       (setitem (setitem (setitem (setitem df ''Region'' names)
          ''Region'' (replace_values REGION_ALIASES names))
          ''Month-Year'' stamps) ''Year'' (dt_year stamps))"

text \<open>A list of labels with one more label, put at the end when it is new.\<close>

definition with_label :: "string \<Rightarrow> string list \<Rightarrow> string list" where
  "with_label c cs = (if c \<in> set cs then cs else cs @ [c])"

text \<open>A row after the two assignments of \<^verbatim>\<open>add_coordinates\<close>.\<close>

definition located :: "row \<Rightarrow> row" where
  "located r =
     assign ''lon'' (snd (REGION_COORDS_get (cell_of r ''Region'')))
       (assign ''lat'' (fst (REGION_COORDS_get (cell_of r ''Region''))) r)"

text \<open>
  The row of a grouping for one key, and the row of \<^verbatim>\<open>region_totals_df\<close> for one region.
\<close>

definition group_row :: "string list \<Rightarrow> string \<Rightarrow> row list \<Rightarrow> cell list \<Rightarrow> row" where
  "group_row keys val rs key =
     zip keys key @
       [(val, Num (sum_list (map (\<lambda>r. num_of (cell_of r val))
                     (filter (\<lambda>r. map (cell_of r) keys = key) rs))))]"

definition total_row :: "row list \<Rightarrow> cell list \<Rightarrow> row" where
  "total_row rs key =
     [(''Region'', hd key),
      (''Total Cases'', Num (sum_list (map (\<lambda>r. num_of (cell_of r ''Cases''))
                               (filter (\<lambda>r. [cell_of r ''Region''] = key) rs))))]"

section \<open>Properties of the frame operations\<close>

lemma and_then_Inr_iff: "and_then m f = Inr y \<longleftrightarrow> (\<exists>x. m = Inr x \<and> f x = Inr y)"
  by (cases m) (simp_all add: and_then_def)

lemma split_nonempty: "split sep s \<noteq> []"
  by (induction s) (auto split: list.splits)

lemma split_no_sep: "sep \<notin> set s \<Longrightarrow> split sep s = [s]"
  by (induction s) auto

lemma split_append: "split sep (p @ sep # s) = split sep p @ split sep s"
proof (induction p)
  case Nil
  show ?case by simp
next
  case (Cons a p)
  obtain t ts where "split sep p = t # ts"
    using split_nonempty [of sep p] by (cases "split sep p") auto
  with Cons show ?case by simp
qed

lemma last_split: "last (split sep s) = rev (takeWhile (\<lambda>c. c \<noteq> sep) (rev s))"
proof (cases "sep \<in> set s")
  case False
  then have h: "takeWhile (\<lambda>c. c \<noteq> sep) (rev s) = rev s"
    by (intro takeWhile_eq_all_conv [THEN iffD2]) auto
  have "last (split sep s) = s"
    using False by (simp add: split_no_sep)
  then show ?thesis by (simp only: h rev_rev_ident)
next
  case True
  then obtain p t where s: "s = p @ sep # t" and t: "sep \<notin> set t"
    by (auto dest: split_list_last)
  have "takeWhile (\<lambda>c. c \<noteq> sep) (rev t @ sep # rev p) = rev t"
    using t by (simp add: takeWhile_append)
  then show ?thesis
    using t by (simp add: s split_append split_nonempty split_no_sep)
qed

lemma series_apply_Inr_D: "series_apply f vs = Inr ws \<Longrightarrow> list_all2 (\<lambda>v w. f v = Inr w) vs ws"
  by (induction vs arbitrary: ws) (auto split: sum.splits)

lemma series_apply_Inr_I: "list_all2 (\<lambda>v w. f v = Inr w) vs ws \<Longrightarrow> series_apply f vs = Inr ws"
  by (induction vs ws rule: list_all2_induct) auto

lemma series_apply_Inr: "series_apply f vs = Inr ws \<longleftrightarrow> list_all2 (\<lambda>v w. f v = Inr w) vs ws"
  using series_apply_Inr_D series_apply_Inr_I by blast

lemma series_apply_Inl: "(\<exists>e. series_apply f vs = Inl e) \<longleftrightarrow> (\<exists>v\<in>set vs. \<exists>e. f v = Inl e)"
  by (induction vs) (auto split: sum.splits)

lemma cell_of_assign: "cell_of (assign c v r) c' = (if c' = c then v else cell_of r c')"
  by (induction r) (auto simp: cell_of_def)

lemma length_series_apply: "series_apply f vs = Inr ws \<Longrightarrow> length ws = length vs"
  by (auto dest!: series_apply_Inr_D simp: list_all2_lengthD)

lemma columns_setitem:
  "columns (setitem df c vs) = (if c \<in> set (columns df) then columns df else columns df @ [c])"
  by (simp add: setitem_def)

lemma length_rows_setitem:
  "length vs = length (rows df) \<Longrightarrow> length (rows (setitem df c vs)) = length (rows df)"
  by (simp add: setitem_def)

lemma nth_rows_setitem:
  "length vs = length (rows df) \<Longrightarrow> i < length (rows df) \<Longrightarrow>
   rows (setitem df c vs) ! i = assign c (vs ! i) (rows df ! i)"
  by (simp add: setitem_def)

lemma getitem_setitem_same:
  assumes "length vs = length (rows df)"
  shows "getitem (setitem df c vs) c = Inr vs"
proof -
  have "map (\<lambda>r. cell_of r c) (rows (setitem df c vs)) = vs"
    using assms by (intro nth_equalityI) (simp_all add: length_rows_setitem nth_rows_setitem cell_of_assign)
  then show ?thesis by (simp add: getitem_def columns_setitem)
qed

lemma getitem_setitem_other:
  assumes "length vs = length (rows df)" and "c' \<noteq> c"
  shows "getitem (setitem df c vs) c' = getitem df c'"
proof -
  have "map (\<lambda>r. cell_of r c') (rows (setitem df c vs)) = map (\<lambda>r. cell_of r c') (rows df)"
    using assms by (intro nth_equalityI) (simp_all add: length_rows_setitem nth_rows_setitem cell_of_assign)
  then show ?thesis using assms by (simp add: getitem_def columns_setitem)
qed

lemma length_getitem: "getitem df c = Inr vs \<Longrightarrow> length vs = length (rows df)"
  by (auto simp: getitem_def split: if_splits)

lemma load_closed:
  "load_and_process_data holds fs path =
     and_then (read_csv fs path) (\<lambda>df.
     and_then (getitem df ''refArea'') (\<lambda>areas.
     and_then (series_apply area_name areas) (\<lambda>names.
     and_then (getitem df ''refPeriod'') (\<lambda>periods.
     and_then (series_apply period_name periods) (\<lambda>segs.
     and_then (to_datetime holds segs) (\<lambda>stamps.
     Inr (loaded df names stamps)))))))"
proof (cases "read_csv fs path")
  case (Inl e)
  then show ?thesis by (simp add: load_and_process_data_def and_then_def)
next
  case df: (Inr df)
  show ?thesis
  proof (cases "getitem df ''refArea''")
    case (Inl e)
    then show ?thesis using df by (simp add: load_and_process_data_def and_then_def)
  next
    case areas: (Inr areas)
    show ?thesis
    proof (cases "series_apply area_name areas")
      case (Inl e)
      then show ?thesis using df areas by (simp add: load_and_process_data_def and_then_def)
    next
      case names: (Inr names)
      have ln: "length names = length (rows df)"
        using names areas by (simp add: length_series_apply length_getitem)
      let ?df1 = "setitem df ''Region'' names"
      let ?df2 = "setitem ?df1 ''Region'' (replace_values REGION_ALIASES names)"
      have g1: "getitem ?df1 ''Region'' = Inr names"
        using ln by (rule getitem_setitem_same)
      have l2: "length (replace_values REGION_ALIASES names) = length (rows ?df1)"
        using ln by (simp add: replace_values_def length_rows_setitem)
      have l2': "length (rows ?df2) = length (rows df)"
        using ln l2 by (simp add: length_rows_setitem)
      have g2: "getitem ?df2 ''refPeriod'' = getitem df ''refPeriod''"
        using ln l2 by (simp add: getitem_setitem_other)
      show ?thesis
      proof (cases "getitem df ''refPeriod''")
        case (Inl e)
        then show ?thesis using df areas names g1 g2
          by (simp add: load_and_process_data_def and_then_def)
      next
        case periods: (Inr periods)
        show ?thesis
        proof (cases "series_apply period_name periods")
          case (Inl e)
          then show ?thesis using df areas names g1 g2 periods
            by (simp add: load_and_process_data_def and_then_def)
        next
          case segs: (Inr segs)
          show ?thesis
          proof (cases "to_datetime holds segs")
            case (Inl e)
            then show ?thesis using df areas names g1 g2 periods segs
              by (simp add: load_and_process_data_def and_then_def)
          next
            case stamps: (Inr stamps)
            have ls: "length stamps = length (rows ?df2)"
              using stamps segs periods l2'
              by (simp add: to_datetime_def length_series_apply length_getitem)
            have g3: "getitem (setitem ?df2 ''Month-Year'' stamps) ''Month-Year'' = Inr stamps"
              using ls by (rule getitem_setitem_same)
            show ?thesis using df areas names g1 g2 periods segs stamps g3
              by (simp add: load_and_process_data_def and_then_def loaded_def)
          qed
        qed
      qed
    qed
  qed
qed

lemma load_InrD:
  assumes "load_and_process_data holds fs path = Inr df"
  obtains df0 areas names periods segs stamps where
    "fs path = Some (Csv df0)"
    "getitem df0 ''refArea'' = Inr areas"
    "series_apply area_name areas = Inr names"
    "getitem df0 ''refPeriod'' = Inr periods"
    "series_apply period_name periods = Inr segs"
    "to_datetime holds segs = Inr stamps"
    "df = loaded df0 names stamps"
proof -
  from assms obtain df0 areas names periods segs stamps where
    r: "read_csv fs path = Inr df0" and
    f: "getitem df0 ''refArea'' = Inr areas"
    "series_apply area_name areas = Inr names"
    "getitem df0 ''refPeriod'' = Inr periods"
    "series_apply period_name periods = Inr segs"
    "to_datetime holds segs = Inr stamps"
    "df = loaded df0 names stamps"
    unfolding load_closed and_then_Inr_iff by auto
  from r have "fs path = Some (Csv df0)"
    by (auto simp: read_csv_def split: option.splits csv_file.splits)
  with f that show thesis by blast
qed

lemma cell_of_rename_other:
  assumes "c \<noteq> ''Cases''" and "c \<noteq> ''Number of cases''"
  shows "cell_of (map (\<lambda>(k, v). (rename_label [(''Number of cases'', ''Cases'')] k, v)) r) c = cell_of r c"
  using assms by (induction r) (auto simp: cell_of_def rename_label_def)

lemma length_rows_loaded:
  assumes "length names = length (rows df0)" and "length stamps = length (rows df0)"
  shows "length (rows (loaded df0 names stamps)) = length (rows df0)"
  using assms
  by (simp add: loaded_def rename_def length_rows_setitem replace_values_def dt_year_def)

lemma nth_rows_loaded:
  assumes "length names = length (rows df0)" and "length stamps = length (rows df0)"
    and "i < length (rows df0)"
  shows "rows (loaded df0 names stamps) ! i =
     map (\<lambda>(k, v). (rename_label [(''Number of cases'', ''Cases'')] k, v))
       (assign ''Year'' (dt_year stamps ! i)
         (assign ''Month-Year'' (stamps ! i)
           (assign ''Region'' (replace_values REGION_ALIASES names ! i)
             (assign ''Region'' (names ! i) (rows df0 ! i)))))"
  using assms
  by (simp add: loaded_def rename_def length_rows_setitem nth_rows_setitem replace_values_def dt_year_def)

lemma region_loaded:
  assumes "length names = length (rows df0)" and "length stamps = length (rows df0)"
    and "i < length (rows df0)"
  shows "cell_of (rows (loaded df0 names stamps) ! i) ''Region'' = replace_values REGION_ALIASES names ! i"
  by (simp add: nth_rows_loaded [OF assms] cell_of_rename_other cell_of_assign)

lemma year_loaded:
  assumes "length names = length (rows df0)" and "length stamps = length (rows df0)"
    and "i < length (rows df0)"
  shows "cell_of (rows (loaded df0 names stamps) ! i) ''Year'' = dt_year stamps ! i"
  by (simp add: nth_rows_loaded [OF assms] cell_of_rename_other cell_of_assign)

lemma index_last_split:
  "index_last (split (CHR ''/'') s) = Inr (spec_last_segment s)"
proof -
  obtain t ts where ts: "split (CHR ''/'') s = t # ts"
    using split_nonempty [of "CHR ''/''" s] by (cases "split (CHR ''/'') s") auto
  have "last (t # ts) = spec_last_segment s"
    unfolding spec_last_segment_def ts [symmetric] by (rule last_split)
  then show ?thesis by (simp add: index_last_def ts)
qed

lemma area_name_Inr:
  "area_name x = Inr n \<longleftrightarrow>
     (\<exists>a. x = Str a \<and> n = Str (map (\<lambda>c. if c = CHR ''_'' then CHR '' '' else c) (spec_last_segment a)))"
  by (cases x) (auto simp: area_name_def index_last_split replace_char_def)

lemma period_name_Inr:
  "period_name x = Inr s \<longleftrightarrow> (\<exists>p. x = Str p \<and> s = Str (spec_last_segment p))"
  by (cases x) (auto simp: period_name_def index_last_split)

lemma replace_aliases:
  assumes "i < length names" and "names ! i = Str (map (\<lambda>c. if c = CHR ''_'' then CHR '' '' else c) (spec_last_segment a))"
  shows "replace_values REGION_ALIASES names ! i = Str (spec_region a)"
  using assms by (simp add: replace_values_def REGION_ALIASES_def spec_region_def Let_def)

lemma load_rows_region:
  assumes "load_and_process_data holds fs path = Inr df"
  shows "\<exists>df0. fs path = Some (Csv df0) \<and> length (rows df) = length (rows df0) \<and>
           (\<forall>i < length (rows df0). \<exists>a.
              cell_of (rows df0 ! i) ''refArea'' = Str a \<and>
              cell_of (rows df ! i) ''Region'' = Str (spec_region a))"
proof -
  from assms obtain df0 areas names periods segs stamps where
    fs: "fs path = Some (Csv df0)" and
    areas: "getitem df0 ''refArea'' = Inr areas" and
    names: "series_apply area_name areas = Inr names" and
    periods: "getitem df0 ''refPeriod'' = Inr periods" and
    segs: "series_apply period_name periods = Inr segs" and
    stamps: "to_datetime holds segs = Inr stamps" and
    df: "df = loaded df0 names stamps"
    by (rule load_InrD)
  have ln: "length names = length (rows df0)"
    using names areas by (simp add: length_series_apply length_getitem)
  have ls: "length stamps = length (rows df0)"
    using stamps segs periods by (simp add: to_datetime_def length_series_apply length_getitem)
  have areas_eq: "areas = map (\<lambda>r. cell_of r ''refArea'') (rows df0)"
    using areas by (auto simp: getitem_def split: if_splits)
  have row: "\<exists>a. cell_of (rows df0 ! i) ''refArea'' = Str a \<and>
              cell_of (rows df ! i) ''Region'' = Str (spec_region a)"
    if i: "i < length (rows df0)" for i
  proof -
    have "area_name (areas ! i) = Inr (names ! i)"
      using series_apply_Inr_D [OF names] i ln areas_eq by (simp add: list_all2_conv_all_nth)
    then obtain a where a: "areas ! i = Str a"
      and n: "names ! i = Str (map (\<lambda>c. if c = CHR ''_'' then CHR '' '' else c) (spec_last_segment a))"
      by (auto simp: area_name_Inr)
    have c: "cell_of (rows df0 ! i) ''refArea'' = Str a"
      using a i by (simp add: areas_eq)
    have r: "cell_of (rows df ! i) ''Region'' = Str (spec_region a)"
      using region_loaded [OF ln ls i] replace_aliases [OF _ n] i ln by (simp add: df)
    from c r show ?thesis by auto
  qed
  have "length (rows df) = length (rows df0)"
    using ln ls by (simp add: df length_rows_loaded)
  with fs row show ?thesis by blast
qed

section \<open>C1: the region of a row\<close>

text \<open>
  Claim C1. For every row of the input, \<^verbatim>\<open>load_and_process_data\<close> derives \<open>Region\<close>
  from \<open>refArea\<close> by taking the segment after the last \<open>/\<close>, replacing every underscore
  by a space and sending \<open>North Governorate\<close> and \<open>North Lebanon\<close> to \<open>Tripoli\<close>: when the
  load returns a frame, it has the rows of the file, each \<open>refArea\<close> is a text, and the
  row's \<open>Region\<close> is \<open>spec_region\<close> of it. In particular a \<open>refArea\<close> whose last
  segment is \<open>Beqaa_Valley\<close> yields \<open>Beqaa Valley\<close>, and one whose last segment is
  \<open>North_Lebanon\<close> yields \<open>Tripoli\<close>.
\<close>

theorem load_region:
  assumes "load_and_process_data holds fs path = Inr df"
  shows "\<exists>df0. fs path = Some (Csv df0) \<and> length (rows df) = length (rows df0) \<and>
           (\<forall>i < length (rows df0). \<exists>a.
              cell_of (rows df0 ! i) ''refArea'' = Str a \<and>
              cell_of (rows df ! i) ''Region'' = Str (spec_region a) \<and>
              (spec_last_segment a = ''Beqaa_Valley'' \<longrightarrow>
                 cell_of (rows df ! i) ''Region'' = Str ''Beqaa Valley'') \<and>
              (spec_last_segment a = ''North_Lebanon'' \<longrightarrow>
                 cell_of (rows df ! i) ''Region'' = Str ''Tripoli''))"
proof -
  have "spec_last_segment a = ''Beqaa_Valley'' \<Longrightarrow> spec_region a = ''Beqaa Valley''"
    and "spec_last_segment a = ''North_Lebanon'' \<Longrightarrow> spec_region a = ''Tripoli''" for a
    by (simp_all add: spec_region_def)
  with load_rows_region [OF assms] show ?thesis
    by (metis (no_types, lifting))
qed

text \<open>The claim at the two rows of the example.\<close>

theorem load_region_witness:
  "load_and_process_data ns_holds example_fs CSV_FILE_PATH = Inr example_loaded \<and>
   cell_of (rows example_loaded ! 0) ''Region'' = Str ''Beqaa Valley'' \<and>
   cell_of (rows example_loaded ! 1) ''Region'' = Str ''Tripoli''"
proof -
  have h: "load_and_process_data ns_holds example_fs CSV_FILE_PATH = Inr example_loaded"
    by code_simp
  from load_region [OF h] obtain df0 where
    fs: "example_fs CSV_FILE_PATH = Some (Csv df0)" and
    r: "\<forall>i < length (rows df0). \<exists>a.
          cell_of (rows df0 ! i) ''refArea'' = Str a \<and>
          cell_of (rows example_loaded ! i) ''Region'' = Str (spec_region a) \<and>
          (spec_last_segment a = ''Beqaa_Valley'' \<longrightarrow>
             cell_of (rows example_loaded ! i) ''Region'' = Str ''Beqaa Valley'') \<and>
          (spec_last_segment a = ''North_Lebanon'' \<longrightarrow>
             cell_of (rows example_loaded ! i) ''Region'' = Str ''Tripoli'')"
    by blast
  from fs have df0: "df0 = example_csv"
    by (simp add: example_fs_def)
  have s0: "spec_last_segment ''http://example.org/area/Beqaa_Valley'' = ''Beqaa_Valley''"
    and s1: "spec_last_segment ''http://example.org/area/North_Lebanon'' = ''North_Lebanon''"
    by (simp_all add: spec_last_segment_def)
  from r [rule_format, of 0] s0 have "cell_of (rows example_loaded ! 0) ''Region'' = Str ''Beqaa Valley''"
    by (auto simp: df0 example_csv_def cell_of_def)
  moreover from r [rule_format, of 1] s1 have "cell_of (rows example_loaded ! 1) ''Region'' = Str ''Tripoli''"
    by (auto simp: df0 example_csv_def cell_of_def)
  ultimately show ?thesis using h by simp
qed

section \<open>C2: the year of a row\<close>







section \<open>C3: when loading fails\<close>

lemma series_apply_ok:
  "(\<exists>ws. series_apply f vs = Inr ws) \<longleftrightarrow> (\<forall>v \<in> set vs. \<exists>w. f v = Inr w)"
  by (induction vs) (auto split: sum.splits)

lemma series_apply_twice_ok:
  "(\<exists>ws. series_apply f vs = Inr ws \<and> (\<exists>ts. series_apply g ws = Inr ts)) \<longleftrightarrow>
   (\<forall>v \<in> set vs. \<exists>w. f v = Inr w \<and> (\<exists>t. g w = Inr t))"
proof (induction vs)
  case Nil
  show ?case by simp
next
  case (Cons v vs)
  show ?case
  proof (cases "f v")
    case (Inl e)
    then show ?thesis by simp
  next
    case w: (Inr w)
    show ?thesis
    proof (cases "series_apply f vs")
      case (Inl e)
      with Cons w show ?thesis by auto
    next
      case ws: (Inr ws)
      show ?thesis
      proof (cases "g w")
        case (Inl e)
        with w ws show ?thesis by auto
      next
        case (Inr t)
        with Cons w ws show ?thesis by (auto split: sum.splits)
      qed
    qed
  qed
qed

lemma sum_Inl_iff: "(\<exists>e. (x :: error + 'a) = Inl e) \<longleftrightarrow> \<not> (\<exists>y. x = Inr y)"
  by (cases x) auto

lemma area_name_ok: "(\<exists>n. area_name v = Inr n) \<longleftrightarrow> is_str v"
  by (cases v) (auto simp: area_name_Inr is_str_def)

lemma period_fails_iff:
  "period_fails holds s \<longleftrightarrow> \<not> (\<exists>t. to_datetime_cell holds (Str s) = Inr t)"
  by (cases "to_datetime_cell holds (Str s)") (simp_all add: period_fails_def)

lemma period_ok:
  "(\<exists>w. period_name v = Inr w \<and> (\<exists>t. to_datetime_cell holds w = Inr t)) \<longleftrightarrow>
   (\<exists>p. v = Str p \<and> \<not> period_fails holds (spec_last_segment p))"
  unfolding period_fails_iff period_name_Inr by blast

lemma load_ok_iff:
  "(\<exists>df. load_and_process_data holds fs path = Inr df) \<longleftrightarrow>
   (\<exists>df0. fs path = Some (Csv df0) \<and>
      ''refArea'' \<in> set (columns df0) \<and> (\<forall>r \<in> set (rows df0). is_str (cell_of r ''refArea'')) \<and>
      ''refPeriod'' \<in> set (columns df0) \<and>
      (\<forall>r \<in> set (rows df0). \<exists>p. cell_of r ''refPeriod'' = Str p \<and>
         \<not> period_fails holds (spec_last_segment p)))"
  (is "?L \<longleftrightarrow> ?R")
proof -
  have rd: "read_csv fs path = Inr df0 \<longleftrightarrow> fs path = Some (Csv df0)" for df0
    by (auto simp: read_csv_def split: option.splits csv_file.splits)
  have gi: "getitem df0 c = Inr vs \<longleftrightarrow> c \<in> set (columns df0) \<and> vs = map (\<lambda>r. cell_of r c) (rows df0)"
    for df0 :: frame and c vs
    by (auto simp: getitem_def)
  have a: "(\<exists>names. series_apply area_name (map (\<lambda>r. cell_of r ''refArea'') (rows df0)) = Inr names)
     \<longleftrightarrow> (\<forall>r \<in> set (rows df0). is_str (cell_of r ''refArea''))" for df0 :: frame
    by (simp add: series_apply_ok area_name_ok)
  have p: "(\<exists>segs. series_apply period_name (map (\<lambda>r. cell_of r ''refPeriod'') (rows df0)) = Inr segs \<and>
         (\<exists>stamps. series_apply (to_datetime_cell holds) segs = Inr stamps))
     \<longleftrightarrow> (\<forall>r \<in> set (rows df0). \<exists>p. cell_of r ''refPeriod'' = Str p \<and>
         \<not> period_fails holds (spec_last_segment p))" for df0 :: frame
    by (simp only: series_apply_twice_ok period_ok) simp
  have "?L \<longleftrightarrow> (\<exists>df0. fs path = Some (Csv df0) \<and> ''refArea'' \<in> set (columns df0) \<and>
      (\<exists>names. series_apply area_name (map (\<lambda>r. cell_of r ''refArea'') (rows df0)) = Inr names) \<and>
      ''refPeriod'' \<in> set (columns df0) \<and>
      (\<exists>segs. series_apply period_name (map (\<lambda>r. cell_of r ''refPeriod'') (rows df0)) = Inr segs \<and>
         (\<exists>stamps. series_apply (to_datetime_cell holds) segs = Inr stamps)))"
    unfolding load_closed and_then_Inr_iff rd gi to_datetime_def by blast
  also have "\<dots> \<longleftrightarrow> ?R"
    by (simp only: a p)
  finally show ?thesis .
qed

lemma period_form_iff:
  "spec_period_form s \<longleftrightarrow>
     (\<exists>mt y1 y2 y3 y4. s = mt @ [CHR ''-'', y1, y2, y3, y4] \<and> mt \<in> set spec_month_texts \<and>
        is_digit y1 \<and> is_digit y2 \<and> is_digit y3 \<and> is_digit y4)"
proof
  assume f: "spec_period_form s"
  define mt where "mt = take (length s - 5) s"
  define d where "d = drop (length s - 5) s"
  have s: "mt @ d = s" by (simp add: mt_def d_def)
  have n: "5 \<le> length s" using f by (simp add: spec_period_form_def)
  have "length d = 5" using n by (simp add: d_def)
  then obtain h y1 y2 y3 y4 where d: "d = [h, y1, y2, y3, y4]"
    by (auto simp: length_Suc_conv eval_nat_numeral)
  have lm: "length s - 5 = length mt"
    using n by (simp add: mt_def)
  have l4: "length s - 4 = Suc (length mt)"
    using n lm by arith
  have h: "s ! (length s - 5) = h"
    unfolding lm s [symmetric] by (simp add: d)
  have y: "drop (length s - 4) s = [y1, y2, y3, y4]"
    unfolding l4 s [symmetric] by (simp add: d)
  have m: "mt \<in> set spec_month_texts"
    using f by (simp add: spec_period_form_def mt_def)
  have "h = CHR ''-''"
    using f h by (simp add: spec_period_form_def)
  moreover have "is_digit y1 \<and> is_digit y2 \<and> is_digit y3 \<and> is_digit y4"
    using f unfolding spec_period_form_def y by simp
  ultimately have "s = mt @ [CHR ''-'', y1, y2, y3, y4] \<and> mt \<in> set spec_month_texts \<and>
        is_digit y1 \<and> is_digit y2 \<and> is_digit y3 \<and> is_digit y4"
    using s d m by simp
  then show "\<exists>mt y1 y2 y3 y4. s = mt @ [CHR ''-'', y1, y2, y3, y4] \<and> mt \<in> set spec_month_texts \<and>
        is_digit y1 \<and> is_digit y2 \<and> is_digit y3 \<and> is_digit y4"
    by blast
next
  assume "\<exists>mt y1 y2 y3 y4. s = mt @ [CHR ''-'', y1, y2, y3, y4] \<and> mt \<in> set spec_month_texts \<and>
        is_digit y1 \<and> is_digit y2 \<and> is_digit y3 \<and> is_digit y4"
  then obtain mt y1 y2 y3 y4 where s: "s = mt @ [CHR ''-'', y1, y2, y3, y4]"
    and m: "mt \<in> set spec_month_texts"
    and dg: "is_digit y1" "is_digit y2" "is_digit y3" "is_digit y4"
    by blast
  have l5: "length s - 5 = length mt" and l4: "length s - 4 = Suc (length mt)"
    by (simp_all add: s)
  show "spec_period_form s"
    unfolding spec_period_form_def l5 l4
    using m dg by (simp add: s)
qed

lemma match_month_text:
  assumes "mt \<in> set spec_month_texts"
  shows "match_month (mt @ CHR ''-'' # ys) = Some (spec_decimal mt, CHR ''-'' # ys)"
  using assms by (auto simp: spec_month_texts_def spec_decimal_def digit_val_def)

lemma match_month_hyphen:
  assumes "match_month s = Some (m, CHR ''-'' # ys)"
  shows "\<exists>mt \<in> set spec_month_texts. s = mt @ CHR ''-'' # ys \<and> m = spec_decimal mt"
proof (cases s rule: match_month.cases)
  case (1 c d cs)
  show ?thesis
  proof (cases "c = CHR ''1'' \<and> d \<in> set ''012''")
    case True
    with assms 1 have "s = [c, d] @ CHR ''-'' # ys" "m = spec_decimal [c, d]"
      "[c, d] \<in> set spec_month_texts"
      by (auto simp: spec_decimal_def digit_val_def spec_month_texts_def)
    then show ?thesis by blast
  next
    case n1: False
    show ?thesis
    proof (cases "c = CHR ''0'' \<and> d \<in> set ''123456789''")
      case True
      with assms 1 n1 have "s = [c, d] @ CHR ''-'' # ys" "m = spec_decimal [c, d]"
        "[c, d] \<in> set spec_month_texts"
        by (auto simp: spec_decimal_def digit_val_def spec_month_texts_def)
      then show ?thesis by blast
    next
      case n2: False
      with assms 1 n1 have c: "c \<in> set ''123456789''" and e: "d # cs = CHR ''-'' # ys"
        and m: "m = digit_val c"
        by (auto split: if_splits)
      from c have "[c] \<in> set spec_month_texts"
        by (auto simp: spec_month_texts_def)
      moreover have "s = [c] @ CHR ''-'' # ys"
        using 1 e by simp
      moreover have "m = spec_decimal [c]"
        using m by (simp add: spec_decimal_def)
      ultimately show ?thesis by blast
    qed
  qed
next
  case (2 c)
  with assms show ?thesis by (simp split: if_splits)
next
  case 3
  with assms show ?thesis by simp
qed

lemma decimal4:
  "spec_decimal [y1, y2, y3, y4] =
     1000 * digit_val y1 + 100 * digit_val y2 + 10 * digit_val y3 + digit_val y4"
  by (simp add: spec_decimal_def)

lemma strptime_form:
  "strptime_m_Y s =
     (if spec_period_form s then Some (spec_period_year s, spec_period_month s) else None)"
proof (cases "spec_period_form s")
  case True
  then obtain mt y1 y2 y3 y4 where s: "s = mt @ [CHR ''-'', y1, y2, y3, y4]"
    and m: "mt \<in> set spec_month_texts"
    and dg: "is_digit y1" "is_digit y2" "is_digit y3" "is_digit y4"
    unfolding period_form_iff by blast
  have l5: "length s - 5 = length mt" and l4: "length s - 4 = Suc (length mt)"
    by (simp_all add: s)
  have y: "spec_period_year s = int (spec_decimal [y1, y2, y3, y4])"
    unfolding spec_period_year_def l4 by (simp add: s)
  have mo: "spec_period_month s = spec_decimal mt"
    unfolding spec_period_month_def l5 by (simp add: s)
  have mm: "match_month s = Some (spec_decimal mt, [CHR ''-'', y1, y2, y3, y4])"
    unfolding s using m by (rule match_month_text)
  show ?thesis
    using True dg unfolding strptime_m_Y_def mm y mo decimal4 by simp
next
  case False
  have "strptime_m_Y s = None"
  proof (rule ccontr)
    assume "strptime_m_Y s \<noteq> None"
    then obtain m h y1 y2 y3 y4 where mm: "match_month s = Some (m, [h, y1, y2, y3, y4])"
      and h: "h = CHR ''-''" and dg: "is_digit y1" "is_digit y2" "is_digit y3" "is_digit y4"
      by (auto simp: strptime_m_Y_def split: option.splits list.splits if_splits)
    from match_month_hyphen [OF mm [unfolded h]] dg have "spec_period_form s"
      unfolding period_form_iff by blast
    with False show False ..
  qed
  with False show ?thesis by simp
qed

lemma missing_texts_iff: "s \<in> set spec_missing_texts \<longleftrightarrow> s = [] \<or> s \<in> set nat_strings"
  by (auto simp: spec_missing_texts_def nat_strings_def)

lemma to_datetime_cell_spec:
  "to_datetime_cell holds (Str s) =
     (if s \<in> set spec_missing_texts then Inr NaT
      else if spec_period_form s \<and> holds (spec_period_year s) (spec_period_month s)
        then Inr (Timestamp (spec_period_year s) (spec_period_month s) 1)
      else if spec_period_form s then Inl OutOfBoundsDatetime
      else Inl ValueError)"
  unfolding to_datetime_cell_def cell.case strptime_form missing_texts_iff by simp

lemma period_fails_spec: "period_fails holds s \<longleftrightarrow> spec_period_rejected holds s"
  by (auto simp: period_fails_def to_datetime_cell_spec spec_period_rejected_def)

lemma load_Inl_iff:
  "(\<exists>e. load_and_process_data holds fs path = Inl e) \<longleftrightarrow>
      (case fs path of
         None \<Rightarrow> True
       | Some Unreadable \<Rightarrow> True
       | Some (Csv df0) \<Rightarrow>
           ''refArea'' \<notin> set (columns df0) \<or>
           (\<exists>r \<in> set (rows df0). \<not> is_str (cell_of r ''refArea'')) \<or>
           ''refPeriod'' \<notin> set (columns df0) \<or>
           (\<exists>r \<in> set (rows df0). \<not> is_str (cell_of r ''refPeriod'')) \<or>
           (\<exists>r \<in> set (rows df0). \<exists>p. cell_of r ''refPeriod'' = Str p \<and>
              period_fails holds (spec_last_segment p)))"
proof -
  have row: "(\<exists>p. v = Str p \<and> \<not> Q p) \<longleftrightarrow> \<not> (\<not> is_str v \<or> (\<exists>p. v = Str p \<and> Q p))" for v Q
    by (cases v) (simp_all add: is_str_def)
  show ?thesis
  proof (cases "fs path")
    case None
    then show ?thesis unfolding sum_Inl_iff load_ok_iff by simp
  next
    case (Some f)
    show ?thesis
    proof (cases f)
      case Unreadable
      with Some show ?thesis unfolding sum_Inl_iff load_ok_iff by simp
    next
      case (Csv df0)
      with Some show ?thesis unfolding sum_Inl_iff load_ok_iff row by auto
    qed
  qed
qed

lemma load_rows_stamp:
  assumes "load_and_process_data holds fs path = Inr df"
  shows "\<exists>df0. fs path = Some (Csv df0) \<and> length (rows df) = length (rows df0) \<and>
           (\<forall>i < length (rows df0). \<exists>p t.
              cell_of (rows df0 ! i) ''refPeriod'' = Str p \<and>
              to_datetime_cell holds (Str (spec_last_segment p)) = Inr t \<and>
              cell_of (rows df ! i) ''Year'' = (case t of Timestamp y m d \<Rightarrow> Num y | _ \<Rightarrow> NaN))"
proof -
  from assms obtain df0 areas names periods segs stamps where
    fs: "fs path = Some (Csv df0)" and
    areas: "getitem df0 ''refArea'' = Inr areas" and
    names: "series_apply area_name areas = Inr names" and
    periods: "getitem df0 ''refPeriod'' = Inr periods" and
    segs: "series_apply period_name periods = Inr segs" and
    stamps: "to_datetime holds segs = Inr stamps" and
    df: "df = loaded df0 names stamps"
    by (rule load_InrD)
  have ln: "length names = length (rows df0)"
    using names areas by (simp add: length_series_apply length_getitem)
  have lp: "length periods = length (rows df0)"
    using periods by (simp add: length_getitem)
  have lg: "length segs = length (rows df0)"
    using segs lp by (simp add: length_series_apply)
  have ls: "length stamps = length (rows df0)"
    using stamps lg by (simp add: to_datetime_def length_series_apply)
  have periods_eq: "periods = map (\<lambda>r. cell_of r ''refPeriod'') (rows df0)"
    using periods by (auto simp: getitem_def split: if_splits)
  have row: "\<exists>p t. cell_of (rows df0 ! i) ''refPeriod'' = Str p \<and>
              to_datetime_cell holds (Str (spec_last_segment p)) = Inr t \<and>
              cell_of (rows df ! i) ''Year'' = (case t of Timestamp y m d \<Rightarrow> Num y | _ \<Rightarrow> NaN)"
    if i: "i < length (rows df0)" for i
  proof -
    have "period_name (periods ! i) = Inr (segs ! i)"
      using series_apply_Inr_D [OF segs] i lp by (simp add: list_all2_conv_all_nth)
    then obtain p where p: "periods ! i = Str p" and seg: "segs ! i = Str (spec_last_segment p)"
      by (auto simp: period_name_Inr)
    have c: "cell_of (rows df0 ! i) ''refPeriod'' = Str p"
      using p i by (simp add: periods_eq)
    have "to_datetime_cell holds (segs ! i) = Inr (stamps ! i)"
      using series_apply_Inr_D [OF stamps [unfolded to_datetime_def]] i lg
      by (simp add: list_all2_conv_all_nth)
    then have t: "to_datetime_cell holds (Str (spec_last_segment p)) = Inr (stamps ! i)"
      by (simp only: seg)
    have "dt_year stamps ! i = (case stamps ! i of Timestamp y m d \<Rightarrow> Num y | _ \<Rightarrow> NaN)"
      using i ls by (simp add: dt_year_def)
    then have "cell_of (rows df ! i) ''Year'' = (case stamps ! i of Timestamp y m d \<Rightarrow> Num y | _ \<Rightarrow> NaN)"
      using year_loaded [OF ln ls i] by (simp add: df)
    with c t show ?thesis by blast
  qed
  have "length (rows df) = length (rows df0)"
    using ln ls by (simp add: df length_rows_loaded)
  with fs row show ?thesis by blast
qed

text \<open>
  Claim C3, as the script has it. The claim says that the load fails exactly when the
  file is missing or unreadable or a period segment is not a valid \<^verbatim>\<open>MM-YYYY\<close>, and that
  there is no row-level continuing. The script differs in three ways. It fails in more
  cases: \<^verbatim>\<open>df['refArea']\<close> and \<^verbatim>\<open>df['refPeriod']\<close> raise \<open>KeyError\<close> when the file has no
  such column, and \<^verbatim>\<open>x.split\<close> raises \<open>AttributeError\<close> on a cell that is not a text. It
  accepts more periods: \<^verbatim>\<open>to_datetime\<close> reads an empty segment and the texts \<open>NaT\<close>, \<open>nat\<close>,
  \<open>NAT\<close>, \<open>nan\<close>, \<open>NaN\<close>, \<open>NAN\<close> as a missing date without raising, and \<^verbatim>\<open>%m\<close> reads a month
  of one digit. And it rejects a well-formed period whose month lies outside the range
  of the timestamp type. Amended: the load fails exactly when the file is missing or
  unreadable, or the column \<open>refArea\<close> or \<open>refPeriod\<close> is absent or holds a cell that is
  not a text, or the period segment of at least one row is rejected: it is not empty
  and none of the six missing texts, and it is not a month (1 to 9, 01 to 09, 10 to
  12), a hyphen and a year of four digits that the timestamp type can hold; \<open>13-2019\<close>
  and \<open>foo\<close> are rejected. A load that fails raises an exception and returns no frame:
  a result is an exception or a frame, never both. A load that does not fail returns
  every row of the file, in order; a row whose segment is empty or a missing text is
  kept with a missing \<open>Year\<close>, and every other row has the year of its segment.
\<close>

theorem load_fails_iff:
  "((\<exists>e. load_and_process_data holds fs path = Inl e) \<longleftrightarrow>
      (case fs path of
         None \<Rightarrow> True
       | Some Unreadable \<Rightarrow> True
       | Some (Csv df0) \<Rightarrow>
           ''refArea'' \<notin> set (columns df0) \<or>
           (\<exists>r \<in> set (rows df0). \<not> is_str (cell_of r ''refArea'')) \<or>
           ''refPeriod'' \<notin> set (columns df0) \<or>
           (\<exists>r \<in> set (rows df0). \<not> is_str (cell_of r ''refPeriod'')) \<or>
           (\<exists>r \<in> set (rows df0). \<exists>p. cell_of r ''refPeriod'' = Str p \<and>
              spec_period_rejected holds (spec_last_segment p)))) \<and>
   (\<forall>df. load_and_process_data holds fs path = Inr df \<longrightarrow>
      (\<exists>df0. fs path = Some (Csv df0) \<and> length (rows df) = length (rows df0) \<and>
         (\<forall>i < length (rows df0). \<exists>p.
            cell_of (rows df0 ! i) ''refPeriod'' = Str p \<and>
            cell_of (rows df ! i) ''Year'' =
              (if spec_last_segment p \<in> set spec_missing_texts then NaN
               else Num (spec_period_year (spec_last_segment p)))))) \<and>
   spec_period_rejected holds ''13-2019'' \<and> spec_period_rejected holds ''foo''"
proof -
  have a: "(\<exists>e. load_and_process_data holds fs path = Inl e) \<longleftrightarrow>
      (case fs path of
         None \<Rightarrow> True
       | Some Unreadable \<Rightarrow> True
       | Some (Csv df0) \<Rightarrow>
           ''refArea'' \<notin> set (columns df0) \<or>
           (\<exists>r \<in> set (rows df0). \<not> is_str (cell_of r ''refArea'')) \<or>
           ''refPeriod'' \<notin> set (columns df0) \<or>
           (\<exists>r \<in> set (rows df0). \<not> is_str (cell_of r ''refPeriod'')) \<or>
           (\<exists>r \<in> set (rows df0). \<exists>p. cell_of r ''refPeriod'' = Str p \<and>
              spec_period_rejected holds (spec_last_segment p)))"
    using load_Inl_iff [of holds fs path] unfolding period_fails_spec .
  have year: "(case t of Timestamp y m d \<Rightarrow> Num y | _ \<Rightarrow> NaN) =
      (if s \<in> set spec_missing_texts then NaN else Num (spec_period_year s))"
    if "to_datetime_cell holds (Str s) = Inr t" for s t
    using that by (auto simp: to_datetime_cell_spec split: if_splits)
  have b: "\<exists>df0. fs path = Some (Csv df0) \<and> length (rows df) = length (rows df0) \<and>
         (\<forall>i < length (rows df0). \<exists>p.
            cell_of (rows df0 ! i) ''refPeriod'' = Str p \<and>
            cell_of (rows df ! i) ''Year'' =
              (if spec_last_segment p \<in> set spec_missing_texts then NaN
               else Num (spec_period_year (spec_last_segment p))))"
    if l: "load_and_process_data holds fs path = Inr df" for df
  proof -
    from load_rows_stamp [OF l] obtain df0 where fs: "fs path = Some (Csv df0)"
      and len: "length (rows df) = length (rows df0)"
      and rw: "\<forall>i < length (rows df0). \<exists>p t.
              cell_of (rows df0 ! i) ''refPeriod'' = Str p \<and>
              to_datetime_cell holds (Str (spec_last_segment p)) = Inr t \<and>
              cell_of (rows df ! i) ''Year'' = (case t of Timestamp y m d \<Rightarrow> Num y | _ \<Rightarrow> NaN)"
      by blast
    have "\<exists>p. cell_of (rows df0 ! i) ''refPeriod'' = Str p \<and>
            cell_of (rows df ! i) ''Year'' =
              (if spec_last_segment p \<in> set spec_missing_texts then NaN
               else Num (spec_period_year (spec_last_segment p)))"
      if "i < length (rows df0)" for i
    proof -
      from rw that obtain p t where "cell_of (rows df0 ! i) ''refPeriod'' = Str p"
        "to_datetime_cell holds (Str (spec_last_segment p)) = Inr t"
        "cell_of (rows df ! i) ''Year'' = (case t of Timestamp y m d \<Rightarrow> Num y | _ \<Rightarrow> NaN)"
        by blast
      then show ?thesis using year by metis
    qed
    with fs len show ?thesis by blast
  qed
  have c: "spec_period_rejected holds ''13-2019''" "spec_period_rejected holds ''foo''"
    by (simp_all add: spec_period_rejected_def spec_missing_texts_def spec_period_form_def
        spec_month_texts_def)
  from a b c show ?thesis by blast
qed

text \<open>
  The amended claim at the file with the period segment \<open>13-2019\<close>, which fails, and at
  the file with the empty segment, which loads with all its rows.
\<close>

theorem load_fails_iff_witness:
  "bad_period_fs CSV_FILE_PATH = Some (Csv bad_period_csv) \<and>
   cell_of (rows bad_period_csv ! 1) ''refPeriod'' = Str ''http://example.org/period/13-2019'' \<and>
   spec_last_segment ''http://example.org/period/13-2019'' = ''13-2019'' \<and>
   spec_period_rejected ns_holds ''13-2019'' \<and>
   load_and_process_data ns_holds bad_period_fs CSV_FILE_PATH = Inl ValueError \<and>
   load_and_process_data ns_holds lenient_fs CSV_FILE_PATH = Inr lenient_loaded \<and>
   lenient_fs CSV_FILE_PATH = Some (Csv lenient_csv) \<and>
   length (rows lenient_loaded) = length (rows lenient_csv)"
proof -
  have fs: "bad_period_fs CSV_FILE_PATH = Some (Csv bad_period_csv)"
    by (simp add: bad_period_fs_def)
  have c: "cell_of (rows bad_period_csv ! 1) ''refPeriod'' = Str ''http://example.org/period/13-2019''"
    by (simp add: bad_period_csv_def cell_of_def)
  have s: "spec_last_segment ''http://example.org/period/13-2019'' = ''13-2019''"
    by (simp add: spec_last_segment_def)
  have r: "rows bad_period_csv ! 1 \<in> set (rows bad_period_csv)"
    by (simp add: bad_period_csv_def)
  note t = load_fails_iff [of ns_holds bad_period_fs CSV_FILE_PATH]
  from t have pf: "spec_period_rejected ns_holds ''13-2019''" by blast
  have "\<exists>r \<in> set (rows bad_period_csv). \<exists>p. cell_of r ''refPeriod'' = Str p \<and>
          spec_period_rejected ns_holds (spec_last_segment p)"
    using c s pf by (intro bexI [OF _ r] exI [of _ "''http://example.org/period/13-2019''"]) simp
  then have ex: "\<exists>e. load_and_process_data ns_holds bad_period_fs CSV_FILE_PATH = Inl e"
    unfolding t [THEN conjunct1] fs by simp
  have e: "load_and_process_data ns_holds bad_period_fs CSV_FILE_PATH = Inl ValueError"
    by code_simp
  have l: "load_and_process_data ns_holds lenient_fs CSV_FILE_PATH = Inr lenient_loaded"
    by code_simp
  have lf: "lenient_fs CSV_FILE_PATH = Some (Csv lenient_csv)"
    by (simp add: lenient_fs_def)
  from load_fails_iff [of ns_holds lenient_fs CSV_FILE_PATH] l lf
  have "length (rows lenient_loaded) = length (rows lenient_csv)"
    by auto
  with fs c s pf ex e l lf show ?thesis by simp
qed

text \<open>
  The claim as stated fails in each of the three ways. A readable file whose only
  period is a valid \<^verbatim>\<open>MM-YYYY\<close> but which has no column \<open>refArea\<close> ends with \<open>KeyError\<close>.
  A file whose period segments are empty, \<open>nan\<close> and \<open>1-2019\<close>, none of them a valid
  \<^verbatim>\<open>MM-YYYY\<close>, loads, with a missing \<open>Year\<close> in the first two rows. A file with the valid
  period \<open>01-1500\<close> fails, for a timestamp of nanosecond resolution.
\<close>

theorem load_failure_differs:
  "no_area_fs CSV_FILE_PATH = Some (Csv no_area_csv) \<and>
   length (rows no_area_csv) = 1 \<and>
   cell_of (rows no_area_csv ! 0) ''refPeriod'' = Str ''http://example.org/period/01-2019'' \<and>
   spec_valid_MM_YYYY (spec_last_segment ''http://example.org/period/01-2019'') \<and>
   load_and_process_data ns_holds no_area_fs CSV_FILE_PATH = Inl (KeyError ''refArea'') \<and>
   lenient_fs CSV_FILE_PATH = Some (Csv lenient_csv) \<and>
   cell_of (rows lenient_csv ! 0) ''refPeriod'' = Str ''http://example.org/period/'' \<and>
   cell_of (rows lenient_csv ! 1) ''refPeriod'' = Str ''http://example.org/period/nan'' \<and>
   cell_of (rows lenient_csv ! 2) ''refPeriod'' = Str ''http://example.org/period/1-2019'' \<and>
   \<not> spec_valid_MM_YYYY (spec_last_segment ''http://example.org/period/'') \<and>
   \<not> spec_valid_MM_YYYY (spec_last_segment ''http://example.org/period/nan'') \<and>
   \<not> spec_valid_MM_YYYY (spec_last_segment ''http://example.org/period/1-2019'') \<and>
   load_and_process_data ns_holds lenient_fs CSV_FILE_PATH = Inr lenient_loaded \<and>
   length (rows lenient_loaded) = 3 \<and>
   cell_of (rows lenient_loaded ! 0) ''Year'' = NaN \<and>
   cell_of (rows lenient_loaded ! 1) ''Year'' = NaN \<and>
   cell_of (rows lenient_loaded ! 2) ''Year'' = Num 2019 \<and>
   early_fs CSV_FILE_PATH = Some (Csv early_csv) \<and>
   length (rows early_csv) = 1 \<and>
   cell_of (rows early_csv ! 0) ''refArea'' = Str ''http://example.org/area/Beirut'' \<and>
   cell_of (rows early_csv ! 0) ''refPeriod'' = Str ''http://example.org/period/01-1500'' \<and>
   spec_valid_MM_YYYY (spec_last_segment ''http://example.org/period/01-1500'') \<and>
   load_and_process_data ns_holds early_fs CSV_FILE_PATH = Inl OutOfBoundsDatetime"
  by code_simp

section \<open>C6: regions and the coordinate table\<close>

lemma spec_region_in_table:
  "spec_region a \<in> set (map fst REGION_COORDS) \<longleftrightarrow>
   spec_area_name a \<in> set (map fst REGION_COORDS) \<union> {''North Governorate'', ''North Lebanon''}"
  by (auto simp: spec_region_def spec_area_name_def REGION_COORDS_def Let_def)

text \<open>
  Claim C6, as the script has it. The claim says that every \<open>Region\<close> that the load
  produces is one of the eight keys of \<^verbatim>\<open>REGION_COORDS\<close>. The load does not look at the
  table: it keeps every row, whatever its area, and \<^verbatim>\<open>add_coordinates\<close> is where a row
  outside the table is dropped. Amended: in a loaded frame, the \<open>Region\<close> of a row is a
  key of the coordinate table exactly when the row's area name (the last segment of
  \<open>refArea\<close>, spaces for underscores) is one of the eight keys or one of the two aliases
  \<open>North Governorate\<close> and \<open>North Lebanon\<close>; a row with any other area name is loaded
  with a region outside the table.
\<close>

theorem load_region_in_table_iff:
  assumes "load_and_process_data holds fs path = Inr df"
    and "fs path = Some (Csv df0)"
    and "i < length (rows df0)"
    and "cell_of (rows df0 ! i) ''refArea'' = Str a"
  shows "\<exists>r. cell_of (rows df ! i) ''Region'' = Str r \<and>
           (r \<in> set (map fst REGION_COORDS) \<longleftrightarrow>
              spec_area_name a \<in> set (map fst REGION_COORDS) \<union>
                {''North Governorate'', ''North Lebanon''})"
proof -
  from load_rows_region [OF assms(1)] assms(2,3) obtain a' where
    "cell_of (rows df0 ! i) ''refArea'' = Str a'"
    "cell_of (rows df ! i) ''Region'' = Str (spec_region a')"
    by auto
  with assms(4) have "cell_of (rows df ! i) ''Region'' = Str (spec_region a)"
    by simp
  then show ?thesis
    using spec_region_in_table by blast
qed

text \<open>The amended claim at a row of the area \<open>Chouf\<close>.\<close>

theorem load_region_in_table_iff_witness:
  "load_and_process_data ns_holds unmapped_fs CSV_FILE_PATH = Inr unmapped_loaded \<and>
   unmapped_fs CSV_FILE_PATH = Some (Csv unmapped_csv) \<and>
   (0::nat) < length (rows unmapped_csv) \<and>
   cell_of (rows unmapped_csv ! 0) ''refArea'' = Str ''http://example.org/area/Chouf'' \<and>
   cell_of (rows unmapped_loaded ! 0) ''Region'' = Str ''Chouf'' \<and>
   spec_area_name ''http://example.org/area/Chouf'' = ''Chouf'' \<and>
   ''Chouf'' \<notin> set (map fst REGION_COORDS) \<union> {''North Governorate'', ''North Lebanon''}"
proof -
  have h1: "load_and_process_data ns_holds unmapped_fs CSV_FILE_PATH = Inr unmapped_loaded"
    by code_simp
  have h2: "unmapped_fs CSV_FILE_PATH = Some (Csv unmapped_csv)"
    by (simp add: unmapped_fs_def)
  have h3: "(0::nat) < length (rows unmapped_csv)"
    by (simp add: unmapped_csv_def)
  have h4: "cell_of (rows unmapped_csv ! 0) ''refArea'' = Str ''http://example.org/area/Chouf''"
    by (simp add: unmapped_csv_def cell_of_def)
  have n: "spec_area_name ''http://example.org/area/Chouf'' = ''Chouf''"
    by (simp add: spec_area_name_def spec_last_segment_def)
  have k: "''Chouf'' \<notin> set (map fst REGION_COORDS) \<union> {''North Governorate'', ''North Lebanon''}"
    by (simp add: REGION_COORDS_def)
  have c: "cell_of (rows unmapped_loaded ! 0) ''Region'' = Str ''Chouf''"
    by (simp add: unmapped_loaded_def cell_of_def)
  from load_region_in_table_iff [OF h1 h2 h3 h4] n k c
  have "''Chouf'' \<notin> set (map fst REGION_COORDS)"
    by auto
  with h1 h2 h3 h4 n k c show ?thesis by simp
qed

text \<open>
  The claim as stated fails at a file with a row of the area \<open>Chouf\<close>: the load returns
  the row with the region \<open>Chouf\<close>, which is no key of the table.
\<close>

theorem load_region_outside_table:
  "load_and_process_data ns_holds unmapped_fs CSV_FILE_PATH = Inr unmapped_loaded \<and>
   length (rows unmapped_loaded) = 1 \<and>
   cell_of (rows unmapped_loaded ! 0) ''Region'' = Str ''Chouf'' \<and>
   ''Chouf'' \<notin> set (map fst REGION_COORDS)"
  by code_simp

section \<open>C10: a file without the column of case counts\<close>

lemma columns_loaded:
  "columns (loaded df0 names stamps) =
     map (rename_label [(''Number of cases'', ''Cases'')])
       (with_label ''Year'' (with_label ''Month-Year'' (with_label ''Region'' (columns df0))))"
  by (simp add: loaded_def rename_def columns_setitem with_label_def)

lemma rename_labels_absent:
  "k \<notin> set cs \<Longrightarrow> map (rename_label [(k, k')]) cs = cs"
  by (induction cs) (auto simp: rename_label_def)

text \<open>
  Claim C10, as the script has it. The claim says that a file without a column
  \<open>Number of cases\<close> loads into a frame with no column \<open>Cases\<close> at all. That is so
  unless the file already has a column called \<open>Cases\<close>, which the load keeps. Amended:
  when the file is readable, its columns \<open>refArea\<close> and \<open>refPeriod\<close> hold texts, every
  period segment parses, and there is no column \<open>Number of cases\<close>, the load does not
  fail and the renaming changes nothing: the columns of the result are those of the
  file with \<open>Region\<close>, \<open>Month-Year\<close> and \<open>Year\<close>, and the result has a column \<open>Cases\<close>
  only if the file had one under that very name. A missing column of case counts is
  not detected by the load.
\<close>

theorem load_without_case_column:
  assumes "fs path = Some (Csv df0)"
    and "''refArea'' \<in> set (columns df0)"
    and "\<forall>r \<in> set (rows df0). is_str (cell_of r ''refArea'')"
    and "''refPeriod'' \<in> set (columns df0)"
    and "\<forall>r \<in> set (rows df0). \<exists>p. cell_of r ''refPeriod'' = Str p \<and>
           \<not> period_fails holds (spec_last_segment p)"
    and "''Number of cases'' \<notin> set (columns df0)"
  shows "\<exists>df. load_and_process_data holds fs path = Inr df \<and>
           columns df =
             with_label ''Year'' (with_label ''Month-Year'' (with_label ''Region'' (columns df0))) \<and>
           (''Cases'' \<in> set (columns df) \<longleftrightarrow> ''Cases'' \<in> set (columns df0))"
proof -
  from assms(1-5) obtain df where df: "load_and_process_data holds fs path = Inr df"
    using load_ok_iff [of holds fs path] by blast
  then obtain df0' names stamps where "fs path = Some (Csv df0')" "df = loaded df0' names stamps"
    by (rule load_InrD)
  with assms(1) have l: "df = loaded df0 names stamps" by simp
  let ?cs = "with_label ''Year'' (with_label ''Month-Year'' (with_label ''Region'' (columns df0)))"
  have "''Number of cases'' \<notin> set ?cs"
    using assms(6) by (simp add: with_label_def)
  then have c: "columns df = ?cs"
    unfolding l columns_loaded by (rule rename_labels_absent)
  have "''Cases'' \<in> set ?cs \<longleftrightarrow> ''Cases'' \<in> set (columns df0)"
    by (simp add: with_label_def)
  with df c show ?thesis by simp
qed

text \<open>The amended claim at a file with the two columns \<open>refArea\<close> and \<open>refPeriod\<close>.\<close>

theorem load_without_case_column_witness:
  "no_count_fs CSV_FILE_PATH = Some (Csv no_count_csv) \<and>
   ''Number of cases'' \<notin> set (columns no_count_csv) \<and>
   columns no_count_csv = [''refArea'', ''refPeriod''] \<and>
   load_and_process_data ns_holds no_count_fs CSV_FILE_PATH =
     Inr \<lparr>columns = [''refArea'', ''refPeriod'', ''Region'', ''Month-Year'', ''Year''],
          rows = [[(''refArea'', Str ''http://example.org/area/Beirut''),
                   (''refPeriod'', Str ''http://example.org/period/03-2018''),
                   (''Region'', Str ''Beirut''),
                   (''Month-Year'', Timestamp 2018 3 1), (''Year'', Num 2018)]]\<rparr>"
proof -
  have h1: "no_count_fs CSV_FILE_PATH = Some (Csv no_count_csv)"
    by (simp add: no_count_fs_def)
  have h2: "''refArea'' \<in> set (columns no_count_csv)"
    and h4: "''refPeriod'' \<in> set (columns no_count_csv)"
    and h6: "''Number of cases'' \<notin> set (columns no_count_csv)"
    and cs: "columns no_count_csv = [''refArea'', ''refPeriod'']"
    by (simp_all add: no_count_csv_def)
  have h3: "\<forall>r \<in> set (rows no_count_csv). is_str (cell_of r ''refArea'')"
    by (simp add: no_count_csv_def cell_of_def is_str_def)
  have seg: "spec_last_segment ''http://example.org/period/03-2018'' = ''03-2018''"
    by (simp add: spec_last_segment_def)
  have "\<not> period_fails ns_holds ''03-2018''"
    by code_simp
  then have h5: "\<forall>r \<in> set (rows no_count_csv). \<exists>p. cell_of r ''refPeriod'' = Str p \<and>
           \<not> period_fails ns_holds (spec_last_segment p)"
    by (simp add: no_count_csv_def cell_of_def seg)
  from load_without_case_column [where fs = no_count_fs and path = CSV_FILE_PATH, OF h1 h2 h3 h4 h5 h6]
  obtain df where "load_and_process_data ns_holds no_count_fs CSV_FILE_PATH = Inr df"
    and "''Cases'' \<in> set (columns df) \<longleftrightarrow> ''Cases'' \<in> set (columns no_count_csv)"
    by blast
  moreover have "load_and_process_data ns_holds no_count_fs CSV_FILE_PATH =
     Inr \<lparr>columns = [''refArea'', ''refPeriod'', ''Region'', ''Month-Year'', ''Year''],
          rows = [[(''refArea'', Str ''http://example.org/area/Beirut''),
                   (''refPeriod'', Str ''http://example.org/period/03-2018''),
                   (''Region'', Str ''Beirut''),
                   (''Month-Year'', Timestamp 2018 3 1), (''Year'', Num 2018)]]\<rparr>"
    by code_simp
  ultimately show ?thesis using h1 h6 cs by simp
qed

text \<open>
  The claim as stated fails at a file with the columns \<open>refArea\<close>, \<open>refPeriod\<close> and
  \<open>Cases\<close>: it has no column \<open>Number of cases\<close>, and the loaded frame has \<open>Cases\<close>.
\<close>

theorem load_keeps_cases_column:
  "cases_fs CSV_FILE_PATH = Some (Csv cases_csv) \<and>
   ''Number of cases'' \<notin> set (columns cases_csv) \<and>
   load_and_process_data ns_holds cases_fs CSV_FILE_PATH = Inr cases_loaded \<and>
   ''Cases'' \<in> set (columns cases_loaded)"
  by code_simp

section \<open>C5: the rows that get coordinates\<close>

lemma rows_setitem_map:
  "rows (setitem df c (map f (map (\<lambda>r. cell_of r k) (rows df)))) =
     map (\<lambda>r. assign c (f (cell_of r k)) r) (rows df)"
  by (simp add: setitem_def zip_map2 zip_same_conv_map)

lemma add_coordinates_closed:
  assumes "''Region'' \<in> set (columns df)"
  shows "add_coordinates df =
     Inr (\<lparr>columns = with_label ''lon'' (with_label ''lat'' (columns df)),
            rows = map located (rows df)\<rparr>,
          \<lparr>columns = with_label ''lon'' (with_label ''lat'' (columns df)),
            rows = filter (\<lambda>r. \<not> isna (cell_of r ''lat'') \<and> \<not> isna (cell_of r ''lon''))
                     (map located (rows df))\<rparr>)"
proof -
  define region where "region = map (\<lambda>r. cell_of r ''Region'') (rows df)"
  define df1 where "df1 = setitem df ''lat'' (map (\<lambda>r. fst (REGION_COORDS_get r)) region)"
  define region' where "region' = map (\<lambda>r. cell_of r ''Region'') (rows df1)"
  define df2 where "df2 = setitem df1 ''lon'' (map (\<lambda>r. snd (REGION_COORDS_get r)) region')"
  have g0: "getitem df ''Region'' = Inr region"
    using assms by (simp add: getitem_def region_def)
  have c1: "columns df1 = with_label ''lat'' (columns df)"
    by (simp add: df1_def columns_setitem with_label_def)
  have r1: "rows df1 = map (\<lambda>r. assign ''lat'' (fst (REGION_COORDS_get (cell_of r ''Region''))) r) (rows df)"
    unfolding df1_def region_def by (rule rows_setitem_map)
  have g1: "getitem df1 ''Region'' = Inr region'"
    using assms by (simp add: getitem_def c1 with_label_def region'_def)
  have c2: "columns df2 = with_label ''lon'' (with_label ''lat'' (columns df))"
    by (simp add: df2_def columns_setitem with_label_def c1)
  have r2': "rows df2 = map (\<lambda>r. assign ''lon'' (snd (REGION_COORDS_get (cell_of r ''Region''))) r) (rows df1)"
    unfolding df2_def region'_def by (rule rows_setitem_map)
  have r2: "rows df2 = map located (rows df)"
    by (simp add: r2' r1 located_def cell_of_assign)
  have d: "df2 = \<lparr>columns = with_label ''lon'' (with_label ''lat'' (columns df)),
            rows = map located (rows df)\<rparr>"
    using c2 r2 by (cases df2) simp
  have "filter (\<lambda>c. c \<notin> set (columns df2)) [''lat'', ''lon''] = []"
    by (simp add: c2 with_label_def)
  then have dn: "dropna [''lat'', ''lon''] df2 =
      Inr (df2\<lparr>rows := filter (\<lambda>r. \<not> isna (cell_of r ''lat'') \<and> \<not> isna (cell_of r ''lon'')) (rows df2)\<rparr>)"
    by (simp add: dropna_def)
  have "add_coordinates df = Inr (df2, df2\<lparr>rows := filter (\<lambda>r. \<not> isna (cell_of r ''lat'') \<and> \<not> isna (cell_of r ''lon'')) (rows df2)\<rparr>)"
    unfolding add_coordinates_def g0 and_then_def sum.case Let_def
      df1_def [symmetric] g1 df2_def [symmetric] dn ..
  then show ?thesis by (simp add: d)
qed

lemma REGION_COORDS_get_cases:
  "(\<exists>s lat lon. v = Str s \<and> map_of REGION_COORDS s = Some (lat, lon) \<and>
      REGION_COORDS_get v = (lat, lon) \<and> \<not> isna lat \<and> \<not> isna lon) \<or>
   ((\<forall>s. v = Str s \<longrightarrow> map_of REGION_COORDS s = None) \<and> REGION_COORDS_get v = (NaN, NaN))"
proof (cases v)
  case (Str s)
  show ?thesis
  proof (cases "map_of REGION_COORDS s")
    case None
    with Str show ?thesis by (simp add: REGION_COORDS_get_def)
  next
    case (Some p)
    then have "(s, p) \<in> set REGION_COORDS" by (rule map_of_SomeD)
    then have "\<not> isna (fst p) \<and> \<not> isna (snd p)"
      by (auto simp: REGION_COORDS_def isna_def)
    with Str Some show ?thesis by (cases p) (simp add: REGION_COORDS_get_def)
  qed
qed (simp_all add: REGION_COORDS_get_def)

lemma map_of_Some_key: "map_of xs k = Some v \<Longrightarrow> k \<in> fst ` set xs"
  by (force dest: map_of_SomeD)

lemma located_in_table:
  "(\<not> isna (cell_of (located r) ''lat'') \<and> \<not> isna (cell_of (located r) ''lon'')) \<longleftrightarrow> spec_in_table r"
  using REGION_COORDS_get_cases [of "cell_of r ''Region''"]
  by (auto simp: located_def cell_of_assign spec_in_table_def isna_def map_of_eq_None_iff
      split: cell.splits dest: map_of_Some_key)

lemma located_spec: "spec_in_table r \<Longrightarrow> located r = spec_with_coordinates r"
  using REGION_COORDS_get_cases [of "cell_of r ''Region''"]
  by (auto simp: located_def spec_in_table_def spec_with_coordinates_def map_of_eq_None_iff
      split: cell.splits)

lemma add_coordinates_rows:
  assumes "''Region'' \<in> set (columns df)"
  shows "\<exists>arg res. add_coordinates df = Inr (arg, res) \<and>
           columns res = with_label ''lon'' (with_label ''lat'' (columns df)) \<and>
           rows res = map spec_with_coordinates (filter spec_in_table (rows df))"
proof -
  have "filter (\<lambda>r. \<not> isna (cell_of r ''lat'') \<and> \<not> isna (cell_of r ''lon'')) (map located (rows df))
      = map located (filter spec_in_table (rows df))"
    by (simp add: filter_map o_def located_in_table)
  also have "\<dots> = map spec_with_coordinates (filter spec_in_table (rows df))"
    by (rule map_cong) (simp_all add: located_spec)
  finally show ?thesis
    unfolding add_coordinates_closed [OF assms] by simp
qed

text \<open>
  Claim C5. \<^verbatim>\<open>add_coordinates\<close> is a filter: on a record set (a frame that has the
  column \<open>Region\<close>) it does not fail, and the frame it returns holds, in their order,
  exactly the input rows whose \<open>Region\<close> is a key of \<^verbatim>\<open>REGION_COORDS\<close>, each carrying
  the latitude and longitude of its region; the rows whose \<open>Region\<close> is no key of the
  table, and only those, are left out.
\<close>

theorem add_coordinates_filter:
  assumes "''Region'' \<in> set (columns df)"
  shows "\<exists>arg res. add_coordinates df = Inr (arg, res) \<and>
           rows res = map spec_with_coordinates (filter spec_in_table (rows df)) \<and>
           (\<forall>r' \<in> set (rows res). \<exists>r \<in> set (rows df). \<exists>s lat lon.
              cell_of r ''Region'' = Str s \<and> map_of REGION_COORDS s = Some (lat, lon) \<and>
              r' = assign ''lon'' lon (assign ''lat'' lat r) \<and>
              cell_of r' ''Region'' = Str s \<and> cell_of r' ''lat'' = lat \<and> cell_of r' ''lon'' = lon)"
proof -
  from add_coordinates_rows [OF assms] obtain arg res where
    a: "add_coordinates df = Inr (arg, res)" and
    r: "rows res = map spec_with_coordinates (filter spec_in_table (rows df))"
    by blast
  have "\<exists>s lat lon. cell_of r ''Region'' = Str s \<and> map_of REGION_COORDS s = Some (lat, lon) \<and>
          spec_with_coordinates r = assign ''lon'' lon (assign ''lat'' lat r) \<and>
          cell_of (spec_with_coordinates r) ''Region'' = Str s \<and>
          cell_of (spec_with_coordinates r) ''lat'' = lat \<and>
          cell_of (spec_with_coordinates r) ''lon'' = lon"
    if "spec_in_table r" for r
  proof -
    from that obtain s where s: "cell_of r ''Region'' = Str s" "s \<in> fst ` set REGION_COORDS"
      by (auto simp: spec_in_table_def split: cell.splits)
    then obtain p where "map_of REGION_COORDS s = Some p"
      by (cases "map_of REGION_COORDS s") (auto simp: map_of_eq_None_iff)
    then obtain lat lon where m: "map_of REGION_COORDS s = Some (lat, lon)"
      by (cases p) auto
    have "spec_with_coordinates r = assign ''lon'' lon (assign ''lat'' lat r)"
      using s m by (simp add: spec_with_coordinates_def)
    with s m show ?thesis by (simp add: cell_of_assign)
  qed
  then have "\<forall>r' \<in> set (rows res). \<exists>r \<in> set (rows df). \<exists>s lat lon.
              cell_of r ''Region'' = Str s \<and> map_of REGION_COORDS s = Some (lat, lon) \<and>
              r' = assign ''lon'' lon (assign ''lat'' lat r) \<and>
              cell_of r' ''Region'' = Str s \<and> cell_of r' ''lat'' = lat \<and> cell_of r' ''lon'' = lon"
    unfolding r by (auto simp del: assign.simps) blast
  with a r show ?thesis by blast
qed

text \<open>The claim at the totals of \<open>Beqaa Valley\<close> and \<open>Chouf\<close>.\<close>

theorem add_coordinates_filter_witness:
  "''Region'' \<in> set (columns mixed_totals) \<and>
   add_coordinates mixed_totals = Inr (mixed_totals_after, mixed_totals_located) \<and>
   rows mixed_totals_located =
     [[(''Region'', Str ''Beqaa Valley''), (''Cases'', Num 11),
       (''lat'', Dec 338467), (''lon'', Dec 359020)]] \<and>
   map spec_with_coordinates (filter spec_in_table (rows mixed_totals)) = rows mixed_totals_located"
proof -
  have h: "''Region'' \<in> set (columns mixed_totals)"
    by (simp add: mixed_totals_def)
  have e: "add_coordinates mixed_totals = Inr (mixed_totals_after, mixed_totals_located)"
    by code_simp
  from add_coordinates_filter [OF h] e
  have "rows mixed_totals_located = map spec_with_coordinates (filter spec_in_table (rows mixed_totals))"
    by auto
  moreover have "rows mixed_totals_located =
     [[(''Region'', Str ''Beqaa Valley''), (''Cases'', Num 11),
       (''lat'', Dec 338467), (''lon'', Dec 359020)]]"
    by (simp add: mixed_totals_located_def)
  ultimately show ?thesis using h e by simp
qed


section \<open>C7: what the call does to its argument\<close>

lemma add_coordinates_Inr_Region:
  "add_coordinates df = Inr x \<Longrightarrow> ''Region'' \<in> set (columns df)"
  by (auto simp: add_coordinates_def and_then_def getitem_def split: if_splits)

text \<open>
  Claim C7, as the script has it. The claim says that \<^verbatim>\<open>add_coordinates\<close> leaves its
  input unchanged. The function assigns \<^verbatim>\<open>df['lat']\<close> and \<^verbatim>\<open>df['lon']\<close> on the frame it
  was given, so the caller's frame has the two columns after the call. Amended:
  \<^verbatim>\<open>add_coordinates\<close> adds the columns \<open>lat\<close> and \<open>lon\<close> to its input in place, with a
  missing value where the region is not in the table; it removes no row of the input
  and changes no other field; and it returns a copy without the rows that have no
  coordinates.
\<close>

theorem add_coordinates_effect:
  assumes "add_coordinates df = Inr (arg, res)"
  shows "columns arg = with_label ''lon'' (with_label ''lat'' (columns df)) \<and>
         length (rows arg) = length (rows df) \<and>
         (\<forall>i < length (rows df).
            (\<forall>c. c \<noteq> ''lat'' \<longrightarrow> c \<noteq> ''lon'' \<longrightarrow>
               cell_of (rows arg ! i) c = cell_of (rows df ! i) c) \<and>
            cell_of (rows arg ! i) ''lat'' = fst (REGION_COORDS_get (cell_of (rows df ! i) ''Region'')) \<and>
            cell_of (rows arg ! i) ''lon'' = snd (REGION_COORDS_get (cell_of (rows df ! i) ''Region''))) \<and>
         columns res = columns arg \<and>
         rows res = filter (\<lambda>r. \<not> isna (cell_of r ''lat'') \<and> \<not> isna (cell_of r ''lon'')) (rows arg)"
proof -
  have "''Region'' \<in> set (columns df)"
    using assms by (rule add_coordinates_Inr_Region)
  from add_coordinates_closed [OF this] assms
  have arg: "arg = \<lparr>columns = with_label ''lon'' (with_label ''lat'' (columns df)),
            rows = map located (rows df)\<rparr>"
    and res: "res = \<lparr>columns = with_label ''lon'' (with_label ''lat'' (columns df)),
            rows = filter (\<lambda>r. \<not> isna (cell_of r ''lat'') \<and> \<not> isna (cell_of r ''lon''))
                     (map located (rows df))\<rparr>"
    by simp_all
  show ?thesis
    by (simp add: arg res located_def cell_of_assign)
qed

text \<open>The amended claim at the totals of \<open>Beqaa Valley\<close> and \<open>Chouf\<close>.\<close>

theorem add_coordinates_effect_witness:
  "add_coordinates mixed_totals = Inr (mixed_totals_after, mixed_totals_located) \<and>
   columns mixed_totals = [''Region'', ''Cases''] \<and>
   columns mixed_totals_after = [''Region'', ''Cases'', ''lat'', ''lon''] \<and>
   length (rows mixed_totals_after) = length (rows mixed_totals) \<and>
   cell_of (rows mixed_totals_after ! 1) ''lat'' = NaN \<and>
   cell_of (rows mixed_totals_after ! 1) ''Cases'' = Num 7"
proof -
  have e: "add_coordinates mixed_totals = Inr (mixed_totals_after, mixed_totals_located)"
    by code_simp
  have c: "columns mixed_totals = [''Region'', ''Cases'']"
    by (simp add: mixed_totals_def)
  note t = add_coordinates_effect [OF e]
  from t have "columns mixed_totals_after = [''Region'', ''Cases'', ''lat'', ''lon'']"
    by (simp add: c with_label_def)
  moreover from t have "length (rows mixed_totals_after) = length (rows mixed_totals)"
    by blast
  moreover have "cell_of (rows mixed_totals_after ! 1) ''lat'' = NaN"
    and "cell_of (rows mixed_totals_after ! 1) ''Cases'' = Num 7"
    by (simp_all add: mixed_totals_after_def cell_of_def)
  ultimately show ?thesis using e c by simp
qed

text \<open>
  The claim as stated fails at those totals: after the call the frame that was passed
  has four columns where it had two.
\<close>

theorem add_coordinates_changes_argument:
  "add_coordinates mixed_totals = Inr (mixed_totals_after, mixed_totals_located) \<and>
   columns mixed_totals = [''Region'', ''Cases''] \<and>
   columns mixed_totals_after = [''Region'', ''Cases'', ''lat'', ''lon''] \<and>
   mixed_totals_after \<noteq> mixed_totals"
  by code_simp

section \<open>Grouping and summing\<close>

lemma set_insert_key: "set (insert_key k ks) = insert k (set ks)"
  by (induction ks) auto

lemma set_sort_keys: "set (sort_keys ks) = set ks"
  unfolding sort_keys_def by (induction ks) (simp_all add: set_insert_key)



lemma not_isna_typed: "is_str v \<or> is_num v \<Longrightarrow> \<not> isna v"
  by (cases v) (simp_all add: is_str_def is_num_def isna_def)

lemma groupby_sum_typed:
  assumes "set keys \<subseteq> set (columns df)" and "val \<in> set (columns df)"
    and "\<forall>r \<in> set (rows df). is_num (cell_of r val)"
    and "\<forall>k \<in> set keys. (\<forall>r \<in> set (rows df). is_str (cell_of r k)) \<or>
                           (\<forall>r \<in> set (rows df). is_num (cell_of r k))"
  shows "groupby_sum keys val df =
     Inr \<lparr>columns = keys @ [val],
          rows = map (group_row keys val (rows df))
                   (sort_keys (remdups (map (\<lambda>r. map (cell_of r) keys) (rows df))))\<rparr>"
proof -
  have k: "filter (\<lambda>k. k \<notin> set (columns df)) keys = []"
    using assms(1) by (auto simp: filter_empty_conv)
  have "\<forall>r \<in> set (rows df). \<forall>k \<in> set keys. \<not> isna (cell_of r k)"
    using assms(4) not_isna_typed by blast
  then have f: "filter (\<lambda>r. \<forall>k \<in> set keys. \<not> isna (cell_of r k)) (rows df) = rows df"
    by (simp add: filter_id_conv)
  show ?thesis
    unfolding groupby_sum_def k list.case f Let_def group_row_def [abs_def]
    using assms(2,3,4) by simp
qed




lemma select_rows_map:
  "rows (select_rows df (map P (map (\<lambda>r. cell_of r c) (rows df)))) =
     filter (\<lambda>r. P (cell_of r c)) (rows df)"
proof -
  have "map fst (filter snd (zip xs (map Q xs))) = filter Q xs" for xs :: "row list" and Q
    by (induction xs) auto
  from this [of "rows df" "\<lambda>r. P (cell_of r c)"] show ?thesis
    by (simp add: select_rows_def o_def)
qed

lemma columns_select_rows: "columns (select_rows df bs) = columns df"
  by (simp add: select_rows_def)



lemma group_row_Region:
  "group_row [''Region''] ''Cases'' rs [v] =
     [(''Region'', v),
      (''Cases'', Num (sum_list (map (\<lambda>r. num_of (cell_of r ''Cases''))
                         (filter (\<lambda>r. cell_of r ''Region'' = v) rs))))]"
  by (simp add: group_row_def)

lemma groupby_Region:
  assumes "case_records df"
  shows "groupby_sum [''Region''] ''Cases'' df =
     Inr \<lparr>columns = [''Region'', ''Cases''],
          rows = map (group_row [''Region''] ''Cases'' (rows df))
                   (sort_keys (remdups (map (\<lambda>r. map (cell_of r) [''Region'']) (rows df))))\<rparr>"
proof -
  have "groupby_sum [''Region''] ''Cases'' df =
     Inr \<lparr>columns = [''Region''] @ [''Cases''],
          rows = map (group_row [''Region''] ''Cases'' (rows df))
                   (sort_keys (remdups (map (\<lambda>r. map (cell_of r) [''Region'']) (rows df))))\<rparr>"
    using assms by (intro groupby_sum_typed) (auto simp: case_records_def)
  then show ?thesis by simp
qed

lemma region_totals_closed:
  assumes "case_records df"
  shows "region_totals_df df =
     Inr \<lparr>columns = [''Region'', ''Total Cases''],
          rows = foldr (insert_desc ''Total Cases'')
                   (map (total_row (rows df))
                      (sort_keys (remdups (map (\<lambda>r. [cell_of r ''Region'']) (rows df))))) []\<rparr>"
proof -
  let ?ks = "sort_keys (remdups (map (\<lambda>r. [cell_of r ''Region'']) (rows df)))"
  have e: "((\<lambda>r. zip [''Region'', ''Total Cases''] (map snd r)) \<circ>
             group_row [''Region''] ''Cases'' (rows df)) k
        = total_row (rows df) k" if "k \<in> set ?ks" for k
  proof -
    from that obtain r where "k = [cell_of r ''Region'']"
      by (auto simp: set_sort_keys)
    then show ?thesis
      by (simp add: group_row_Region total_row_def)
  qed
  have m: "map ((\<lambda>r. zip [''Region'', ''Total Cases''] (map snd r)) \<circ>
             group_row [''Region''] ''Cases'' (rows df)) ?ks
      = map (total_row (rows df)) ?ks"
    by (rule map_cong [OF refl]) (rule e)
  show ?thesis
    unfolding region_totals_df_def groupby_Region [OF assms] and_then_def sum.case
    by (simp add: set_columns_def sort_values_desc_def m)
qed

lemma remdups_constant:
  "xs \<noteq> [] \<Longrightarrow> \<forall>x \<in> set xs. f x = c \<Longrightarrow> remdups (map f xs) = [c]"
proof (induction xs)
  case Nil
  then show ?case by simp
next
  case (Cons x xs)
  then show ?case by (cases xs) auto
qed





lemma case_records_select_rows:
  assumes "case_records df"
  shows "case_records (select_rows df (map P (map (\<lambda>r. cell_of r c) (rows df))))"
  using assms unfolding case_records_def columns_select_rows select_rows_map by simp


section \<open>C4: what the aggregates add up to\<close>




section \<open>C8: the rows of the trend aggregate\<close>

lemma group_row_Year_Region:
  "group_row [''Year'', ''Region''] ''Cases'' rs [a, b] =
     [(''Year'', a), (''Region'', b),
      (''Cases'', Num (sum_list (map (\<lambda>r. num_of (cell_of r ''Cases''))
                         (filter (\<lambda>r. cell_of r ''Year'' = a \<and> cell_of r ''Region'' = b) rs))))]"
  by (simp add: group_row_def)

lemma is_str_iff: "is_str v \<longleftrightarrow> (\<exists>s. v = Str s)"
  by (cases v) (simp_all add: is_str_def)

lemma is_num_iff: "is_num v \<longleftrightarrow> (\<exists>n. v = Num n)"
  by (cases v) (simp_all add: is_num_def)

text \<open>
  Claim C8. For every record set and every list of selected regions, the frame
  \<^verbatim>\<open>line_df\<close> has a row for the year \<open>y\<close>, the region \<open>r\<close> and the total \<open>tot\<close> if and only if
  \<open>r\<close> is selected, at least one record has the region \<open>r\<close> and the year \<open>y\<close>, and \<open>tot\<close>
  is the sum of \<open>Cases\<close> over those records. Every row of the frame is such a row, so a
  pair of a region and a year without records has no row, and none with the total 0.
\<close>

theorem line_df_rows:
  assumes "case_records df"
  shows "\<exists>t. line_df df regions = Inr t \<and>
           (\<forall>row \<in> set (rows t). \<exists>y r tot.
              row = [(''Year'', Num y), (''Region'', Str r), (''Cases'', Num tot)]) \<and>
           (\<forall>y r tot.
              [(''Year'', Num y), (''Region'', Str r), (''Cases'', Num tot)] \<in> set (rows t) \<longleftrightarrow>
                r \<in> set regions \<and>
                (\<exists>rec \<in> set (rows df). cell_of rec ''Region'' = Str r \<and> cell_of rec ''Year'' = Num y) \<and>
                tot = sum_list (map (\<lambda>rec. num_of (cell_of rec ''Cases''))
                        (filter (\<lambda>rec. cell_of rec ''Region'' = Str r \<and> cell_of rec ''Year'' = Num y)
                           (rows df))))"
proof -
  define sel where
    "sel = select_rows df (map (\<lambda>v. v \<in> set (map Str regions)) (map (\<lambda>r. cell_of r ''Region'') (rows df)))"
  define rs where "rs = rows sel"
  define G where "G = group_row [''Year'', ''Region''] ''Cases'' rs"
  define t where "t = \<lparr>columns = [''Year'', ''Region''] @ [''Cases''],
      rows = map G (sort_keys (remdups (map (\<lambda>r. map (cell_of r) [''Year'', ''Region'']) rs)))\<rparr>"
  have gr: "getitem df ''Region'' = Inr (map (\<lambda>r. cell_of r ''Region'') (rows df))"
    using assms by (simp add: getitem_def case_records_def)
  have rs: "rs = filter (\<lambda>r. cell_of r ''Region'' \<in> set (map Str regions)) (rows df)"
    unfolding rs_def sel_def by (rule select_rows_map)
  have cr: "case_records sel"
    unfolding sel_def using assms by (rule case_records_select_rows)
  have "groupby_sum [''Year'', ''Region''] ''Cases'' sel = Inr t"
    unfolding t_def G_def rs_def
    using cr by (intro groupby_sum_typed) (auto simp: case_records_def)
  then have l: "line_df df regions = Inr t"
    unfolding line_df_def gr and_then_def sum.case sel_def [symmetric] .
  have typed: "\<exists>y s. cell_of r ''Year'' = Num y \<and> cell_of r ''Region'' = Str s" if "r \<in> set rs" for r
    using that cr by (auto simp: case_records_def rs_def is_str_iff is_num_iff)
  have rows_t: "set (rows t) = (\<lambda>r. G [cell_of r ''Year'', cell_of r ''Region'']) ` set rs"
    by (simp add: t_def set_sort_keys image_image)
  have shape: "\<forall>row \<in> set (rows t). \<exists>y r tot.
      row = [(''Year'', Num y), (''Region'', Str r), (''Cases'', Num tot)]"
    unfolding rows_t using typed by (fastforce simp: G_def group_row_Year_Region)
  have mem: "[(''Year'', Num y), (''Region'', Str r), (''Cases'', Num tot)] \<in> set (rows t) \<longleftrightarrow>
      r \<in> set regions \<and>
      (\<exists>rec \<in> set (rows df). cell_of rec ''Region'' = Str r \<and> cell_of rec ''Year'' = Num y) \<and>
      tot = sum_list (map (\<lambda>rec. num_of (cell_of rec ''Cases''))
              (filter (\<lambda>rec. cell_of rec ''Region'' = Str r \<and> cell_of rec ''Year'' = Num y)
                 (rows df)))" (is "?L \<longleftrightarrow> ?R") for y r tot
  proof -
    have f: "filter (\<lambda>rec. cell_of rec ''Year'' = Num y \<and> cell_of rec ''Region'' = Str r) rs
        = filter (\<lambda>rec. cell_of rec ''Region'' = Str r \<and> cell_of rec ''Year'' = Num y) (rows df)"
      if "r \<in> set regions"
      unfolding rs filter_filter using that by (intro filter_cong refl) auto
    have "?L \<longleftrightarrow> (\<exists>rec \<in> set rs. cell_of rec ''Year'' = Num y \<and> cell_of rec ''Region'' = Str r \<and>
        tot = sum_list (map (\<lambda>rec. num_of (cell_of rec ''Cases''))
                (filter (\<lambda>rec. cell_of rec ''Year'' = Num y \<and> cell_of rec ''Region'' = Str r) rs)))"
      unfolding rows_t by (auto simp: G_def group_row_Year_Region intro!: rev_image_eqI)
    also have "\<dots> \<longleftrightarrow> ?R"
    proof
      assume "\<exists>rec \<in> set rs. cell_of rec ''Year'' = Num y \<and> cell_of rec ''Region'' = Str r \<and>
        tot = sum_list (map (\<lambda>rec. num_of (cell_of rec ''Cases''))
                (filter (\<lambda>rec. cell_of rec ''Year'' = Num y \<and> cell_of rec ''Region'' = Str r) rs))"
      then obtain rec where rec: "rec \<in> set rs" "cell_of rec ''Year'' = Num y"
        "cell_of rec ''Region'' = Str r"
        and tot: "tot = sum_list (map (\<lambda>rec. num_of (cell_of rec ''Cases''))
                (filter (\<lambda>rec. cell_of rec ''Year'' = Num y \<and> cell_of rec ''Region'' = Str r) rs))"
        by blast
      from rec have r: "r \<in> set regions" and "rec \<in> set (rows df)"
        by (auto simp: rs)
      with rec tot f [OF r] show ?R by auto
    next
      assume R: ?R
      then obtain rec where r: "r \<in> set regions" and rec: "rec \<in> set (rows df)"
        "cell_of rec ''Region'' = Str r" "cell_of rec ''Year'' = Num y"
        by blast
      then have "rec \<in> set rs" by (simp add: rs)
      with rec R f [OF r] show "\<exists>rec \<in> set rs. cell_of rec ''Year'' = Num y \<and> cell_of rec ''Region'' = Str r \<and>
        tot = sum_list (map (\<lambda>rec. num_of (cell_of rec ''Cases''))
                (filter (\<lambda>rec. cell_of rec ''Year'' = Num y \<and> cell_of rec ''Region'' = Str r) rs))"
        by auto
    qed
    finally show ?thesis .
  qed
  from l shape mem show ?thesis by blast
qed

text \<open>
  The claim at the four example records with \<open>Beqaa Valley\<close> and \<open>Chouf\<close> selected:
  \<open>Chouf\<close> has no record of 2019 and no row for it.
\<close>

theorem line_df_rows_witness:
  "case_records example_records \<and>
   line_df example_records [''Beqaa Valley'', ''Chouf''] =
     Inr \<lparr>columns = [''Year'', ''Region'', ''Cases''],
          rows = [[(''Year'', Num 2019), (''Region'', Str ''Beqaa Valley''), (''Cases'', Num 5)],
                  [(''Year'', Num 2020), (''Region'', Str ''Beqaa Valley''), (''Cases'', Num 11)],
                  [(''Year'', Num 2020), (''Region'', Str ''Chouf''), (''Cases'', Num 7)]]\<rparr> \<and>
   [(''Year'', Num 2019), (''Region'', Str ''Chouf''), (''Cases'', Num 0)] \<notin>
     set [[(''Year'', Num 2019), (''Region'', Str ''Beqaa Valley''), (''Cases'', Num 5)],
          [(''Year'', Num 2020), (''Region'', Str ''Beqaa Valley''), (''Cases'', Num 11)],
          [(''Year'', Num 2020), (''Region'', Str ''Chouf''), (''Cases'', Num 7)]]"
proof -
  have h: "case_records example_records"
    by (simp add: case_records_def example_records_def cell_of_def is_str_def is_num_def)
  have e: "line_df example_records [''Beqaa Valley'', ''Chouf''] =
     Inr \<lparr>columns = [''Year'', ''Region'', ''Cases''],
          rows = [[(''Year'', Num 2019), (''Region'', Str ''Beqaa Valley''), (''Cases'', Num 5)],
                  [(''Year'', Num 2020), (''Region'', Str ''Beqaa Valley''), (''Cases'', Num 11)],
                  [(''Year'', Num 2020), (''Region'', Str ''Chouf''), (''Cases'', Num 7)]]\<rparr>"
    by code_simp
  have n: "\<not> (\<exists>rec \<in> set (rows example_records).
      cell_of rec ''Region'' = Str ''Chouf'' \<and> cell_of rec ''Year'' = Num 2019)"
    by (simp add: example_records_def cell_of_def)
  from line_df_rows [OF h, of "[''Beqaa Valley'', ''Chouf'']"] e n
  have "[(''Year'', Num 2019), (''Region'', Str ''Chouf''), (''Cases'', Num 0)] \<notin>
     set [[(''Year'', Num 2019), (''Region'', Str ''Beqaa Valley''), (''Cases'', Num 5)],
          [(''Year'', Num 2020), (''Region'', Str ''Beqaa Valley''), (''Cases'', Num 11)],
          [(''Year'', Num 2020), (''Region'', Str ''Chouf''), (''Cases'', Num 7)]]"
    by simp
  with h e show ?thesis by simp
qed

section \<open>C9: one region in two years\<close>

text \<open>
  Claim C9. \<^verbatim>\<open>region_totals_df\<close> groups by \<open>Region\<close> alone: for a record set whose
  records all have one region, whatever their years, it returns exactly one row, for
  that region, and the row's total is the sum of \<open>Cases\<close> over all the records.
\<close>

theorem region_totals_single_region:
  assumes "case_records df" and "rows df \<noteq> []"
    and "\<forall>r \<in> set (rows df). cell_of r ''Region'' = Str s"
  shows "region_totals_df df =
     Inr \<lparr>columns = [''Region'', ''Total Cases''],
          rows = [[(''Region'', Str s),
                   (''Total Cases'', Num (sum_list (map (\<lambda>r. num_of (cell_of r ''Cases''))
                                              (rows df))))]]\<rparr>"
proof -
  have k: "remdups (map (\<lambda>r. [cell_of r ''Region'']) (rows df)) = [[Str s]]"
    using assms(2,3) by (intro remdups_constant) simp_all
  have f: "filter (\<lambda>r. cell_of r ''Region'' = Str s) (rows df) = rows df"
    using assms(3) by (simp add: filter_id_conv)
  show ?thesis
    unfolding region_totals_closed [OF assms(1)] k
    by (simp add: sort_keys_def total_row_def f)
qed

text \<open>The claim at two records of \<open>Akkar\<close>, one of 2019 and one of 2020.\<close>

theorem region_totals_single_region_witness:
  "case_records two_years \<and> rows two_years \<noteq> [] \<and>
   cell_of (rows two_years ! 0) ''Region'' = Str ''Akkar'' \<and>
   cell_of (rows two_years ! 1) ''Region'' = Str ''Akkar'' \<and>
   cell_of (rows two_years ! 0) ''Year'' = Num 2019 \<and>
   cell_of (rows two_years ! 1) ''Year'' = Num 2020 \<and>
   region_totals_df two_years =
     Inr \<lparr>columns = [''Region'', ''Total Cases''],
          rows = [[(''Region'', Str ''Akkar''), (''Total Cases'', Num 13)]]\<rparr>"
proof -
  have h1: "case_records two_years"
    by (simp add: case_records_def two_years_def cell_of_def is_str_def is_num_def)
  have h2: "rows two_years \<noteq> []"
    by (simp add: two_years_def)
  have h3: "\<forall>r \<in> set (rows two_years). cell_of r ''Region'' = Str ''Akkar''"
    by (simp add: two_years_def cell_of_def)
  have c: "cell_of (rows two_years ! 0) ''Region'' = Str ''Akkar''"
    "cell_of (rows two_years ! 1) ''Region'' = Str ''Akkar''"
    "cell_of (rows two_years ! 0) ''Year'' = Num 2019"
    "cell_of (rows two_years ! 1) ''Year'' = Num 2020"
    by (simp_all add: two_years_def cell_of_def)
  have "sum_list (map (\<lambda>r. num_of (cell_of r ''Cases'')) (rows two_years)) = 13"
    by (simp add: two_years_def cell_of_def num_of_def)
  with region_totals_single_region [OF h1 h2 h3]
  have "region_totals_df two_years =
     Inr \<lparr>columns = [''Region'', ''Total Cases''],
          rows = [[(''Region'', Str ''Akkar''), (''Total Cases'', Num 13)]]\<rparr>"
    by simp
  with h1 h2 c show ?thesis by simp
qed

end
